theory Spec2Isabelle
  imports Complex_Main "HOL-Library.Multiset"
begin

section \<open>Data model: errors, rows and data frames\<close>

text \<open>
  The notebook \<^verbatim>\<open>bid-model-tutorial_step-4.ipynb\<close> is a sequence of cells run top to
  bottom by a Python 2.7 kernel. A cell either finishes or stops at the first exception
  it raises; the exceptions that the modelled cells can raise are values of
  \<open>py_error\<close>, and a fallible step returns \<open>py_error + 'a\<close> (\<open>Inl\<close> is the
  exception).
\<close>

datatype py_error =
    KeyError string
  | ValueError
  | ZeroDivisionError
  | IndexError
  | NameError string
  | RemoteFault string

text \<open>
  A data frame is a list of column names and a list of rows; a row carries its index
  label and one cell per column. A cell holds a float: a number, or the missing value
  NaN, which is \<open>None\<close>. Arithmetic on the numbers is exact (rationals); the one place
  where the rounding of the 64-bit floats of the source decides what the program does,
  the size of a sample, is treated with \<open>sample_sizes\<close> below. In a frame built by
  pandas every row has as many cells as the frame has columns; \<open>cell\<close> answers
  \<open>None\<close> outside that range, so that every definition below is total.
\<close>

record row =
  label :: nat
  vals :: "rat option list"

record dataframe =
  columns :: "string list"
  rows :: "row list"

definition len :: "dataframe \<Rightarrow> nat" where
  "len df = length (rows df)"

definition cell :: "row \<Rightarrow> nat \<Rightarrow> rat option" where
  "cell r i = (if i < length (vals r) then vals r ! i else None)"

definition col_positions :: "string \<Rightarrow> dataframe \<Rightarrow> nat list" where
  "col_positions c df = [i \<leftarrow> [0..<length (columns df)]. columns df ! i = c]"

text \<open>
  \<^verbatim>\<open>df['name']\<close> used as a series: a missing label raises KeyError; a label that
  occurs twice selects a frame instead of a series, on which the comparisons and the
  column assignments of the notebook raise.
\<close>

definition get_col :: "string \<Rightarrow> dataframe \<Rightarrow> py_error + nat" where
  "get_col c df =
     (case col_positions c df of
        [] \<Rightarrow> Inl (KeyError c)
      | [i] \<Rightarrow> Inr i
      | _ \<Rightarrow> Inl ValueError)"

text \<open>\<^verbatim>\<open>df[c] > 0\<close> at one row: a missing value compares false.\<close>

definition positive :: "nat \<Rightarrow> row \<Rightarrow> bool" where
  "positive c r = (case cell r c of Some v \<Rightarrow> 0 < v | None \<Rightarrow> False)"

text \<open>\<^verbatim>\<open>df.loc[mask]\<close>: the rows where the mask holds, labels kept.\<close>

definition loc_rows :: "(row \<Rightarrow> bool) \<Rightarrow> dataframe \<Rightarrow> dataframe" where
  "loc_rows p df = df\<lparr>rows := filter p (rows df)\<rparr>"

text \<open>Python 2 \<^verbatim>\<open>round\<close> followed by \<^verbatim>\<open>int\<close>: halves go away from zero.\<close>

definition py_round :: "rat \<Rightarrow> int" where
  "py_round x = (if 0 \<le> x then \<lfloor>x + 1 / 2\<rfloor> else - \<lfloor>- x + 1 / 2\<rfloor>)"

text \<open>
  \<^verbatim>\<open>rs.choice(a, size=n, replace=False)\<close> returns \<open>n\<close> positions below \<open>a\<close>, no
  position twice. The positions drawn are the one random input of a sampling step; they
  are passed to the model as \<open>locs\<close>, and \<open>random_choice\<close> says which lists the
  generator can return.
\<close>

definition random_choice :: "nat \<Rightarrow> nat \<Rightarrow> nat list \<Rightarrow> bool" where
  "random_choice a n locs \<longleftrightarrow> length locs = n \<and> distinct locs \<and> list_all (\<lambda>i. i < a) locs"

text \<open>\<^verbatim>\<open>df.take(locs)\<close>: the rows at the given positions, in that order.\<close>

definition df_take :: "dataframe \<Rightarrow> nat list \<Rightarrow> py_error + dataframe" where
  "df_take df locs =
     (if list_all (\<lambda>i. i < len df) locs
      then Inr (df\<lparr>rows := map (\<lambda>i. rows df ! i) locs\<rparr>)
      else Inl IndexError)"

text \<open>
  \<^verbatim>\<open>df.sample(frac=frac)\<close> (pandas, \<^verbatim>\<open>replace=False\<close> by default):
  \<^verbatim>\<open>n = int(round(frac * axis_length))\<close>, a negative \<open>n\<close> is refused, the generator
  refuses to draw more positions than there are rows, and the rows drawn are taken.
  Drawing no position is admitted for every frame; versions of the generator that refuse
  an empty frame even then differ from the model on empty frames only.
\<close>

definition sample_size :: "rat \<Rightarrow> dataframe \<Rightarrow> int" where
  "sample_size fr df = py_round (fr * of_nat (len df))"

definition df_sample :: "rat \<Rightarrow> dataframe \<Rightarrow> nat list \<Rightarrow> py_error + dataframe" where
  "df_sample fr df locs =
     (let n = sample_size fr df in
      if n < 0 then Inl ValueError
      else if int (len df) < n then Inl ValueError
      else df_take df locs)"

text \<open>
  The source computes \<^verbatim>\<open>frac * axis_length\<close> in 64-bit floats, so that the product can
  miss the exact one in the last places and the size can be a neighbour of
  \<open>sample_size\<close>: for 39 converted rows in 1391 the exact product is 802.5, which rounds
  to 803, and the float product is 802.4999999999999, which rounds to 802.
  \<open>sample_sizes\<close> holds every size that the rounding of a number within 1/4 of the exact
  product gives (lemma \<open>sample_sizes_iff\<close>). The rate and the product are rounded once
  each, with a relative error of at most \<open>2 ^ -53\<close>, so that for a rate of at most 1
  and a frame of fewer than \<open>2 ^ 49\<close> rows the float product is within 1/4 of the
  exact one, and the size that the source computes is one of them. The check of the size
  against the length of the frame has the same outcome for all of them (lemma
  \<open>sample_sizes_check\<close>), which is why \<open>df_sample\<close> makes it on \<open>sample_size\<close>;
  the rows it takes are those at \<open>locs\<close>, however many they are.
\<close>

definition sample_sizes :: "rat \<Rightarrow> nat \<Rightarrow> int \<Rightarrow> bool" where
  "sample_sizes fr axis_length n \<longleftrightarrow>
     py_round (fr * of_nat axis_length - 1 / 4) \<le> n \<and>
     n \<le> py_round (fr * of_nat axis_length + 1 / 4)"

text \<open>
  \<^verbatim>\<open>pd.concat([a, b], axis=0, ignore_index=True)\<close> for two frames over the same
  columns: the rows of \<open>a\<close>, then the rows of \<open>b\<close>, relabelled \<open>0, 1, ...\<close>.
\<close>

definition reset_index :: "row list \<Rightarrow> row list" where
  "reset_index rs = map (\<lambda>(i, r). r\<lparr>label := i\<rparr>) (enumerate 0 rs)"

definition concat_ignore_index :: "dataframe \<Rightarrow> dataframe \<Rightarrow> dataframe" where
  "concat_ignore_index a b = a\<lparr>rows := reset_index (rows a @ rows b)\<rparr>"

section \<open>The resampler (cell 4)\<close>

text \<open>
  \<^verbatim>\<open>sample_rate = len(sampled_data) * 20.0 / (len(df) - len(sampled_data))\<close>: a float
  division, which raises ZeroDivisionError on a zero divisor.
\<close>

definition sample_rate :: "nat \<Rightarrow> nat \<Rightarrow> py_error + rat" where
  "sample_rate c t =
     (if int t - int c = 0 then Inl ZeroDivisionError
      else Inr (of_nat c * 20 / of_int (int t - int c)))"

definition resample :: "dataframe \<Rightarrow> nat list \<Rightarrow> py_error + dataframe" where
  "resample df locs =
     (case get_col ''conversion_rate'' df of
        Inl e \<Rightarrow> Inl e
      | Inr c \<Rightarrow>
          (let sampled_data = loc_rows (positive c) df in
           case sample_rate (len sampled_data) (len df) of
             Inl e \<Rightarrow> Inl e
           | Inr rate \<Rightarrow>
               (case df_sample rate df locs of
                  Inl e \<Rightarrow> Inl e
                | Inr drawn \<Rightarrow> Inr (concat_ignore_index sampled_data drawn))))"

text \<open>The number of rows with a positive conversion rate, and their share of a frame.\<close>

definition minority_count :: "nat \<Rightarrow> dataframe \<Rightarrow> nat" where
  "minority_count c df = length (filter (positive c) (rows df))"

definition minority_ratio :: "nat \<Rightarrow> dataframe \<Rightarrow> rat option" where
  "minority_ratio c df =
     (if len df = 0 then None else Some (of_nat (minority_count c df) / of_nat (len df)))"

text \<open>Two small frames: every row converted; one converted row and one that did not.\<close>

definition df_all_converted :: dataframe where
  "df_all_converted =
     \<lparr>columns = [''conversion_rate'', ''rewarded''],
      rows = [\<lparr>label = 0, vals = [Some (1 / 4), Some 1]\<rparr>]\<rparr>"

definition df_one_each :: dataframe where
  "df_one_each =
     \<lparr>columns = [''conversion_rate'', ''rewarded''],
      rows = [\<lparr>label = 0, vals = [Some (1 / 4), Some 1]\<rparr>,
              \<lparr>label = 1, vals = [Some 0, Some 0]\<rparr>]\<rparr>"

text \<open>The number of converted rows among the rows drawn at the positions \<open>locs\<close>.\<close>

definition drawn_minority :: "nat \<Rightarrow> dataframe \<Rightarrow> nat list \<Rightarrow> nat" where
  "drawn_minority c df locs = length (filter (positive c) (map (\<lambda>i. rows df ! i) locs))"

text \<open>
  A frame of 22 rows of which the first alone is converted, and a frame of one row that is
  not converted.
\<close>

definition df_one_in_22 :: dataframe where
  "df_one_in_22 =
     \<lparr>columns = [''conversion_rate'', ''rewarded''],
      rows = map (\<lambda>i. \<lparr>label = i, vals = [Some (if i = 0 then 1 / 4 else 0), Some 1]\<rparr>)
               [0..<22]\<rparr>"

definition df_none_converted :: dataframe where
  "df_none_converted =
     \<lparr>columns = [''conversion_rate'', ''rewarded''],
      rows = [\<lparr>label = 0, vals = [Some 0, Some 1]\<rparr>]\<rparr>"

section \<open>The splitter (cells 6, 26, 33 and 39)\<close>

text \<open>\<^verbatim>\<open>df.index\<close>: the row labels, in row order.\<close>

definition index :: "dataframe \<Rightarrow> nat list" where
  "index df = map label (rows df)"

text \<open>
  \<^verbatim>\<open>df.drop(labels)\<close> on the rows: every row that carries one of the labels goes; a
  label that no row carries raises KeyError.
\<close>

definition df_drop :: "nat list \<Rightarrow> dataframe \<Rightarrow> py_error + dataframe" where
  "df_drop labels df =
     (if list_ex (\<lambda>l. l \<notin> set (index df)) labels
      then Inl (KeyError ''labels not contained in axis'')
      else Inr (df\<lparr>rows := filter (\<lambda>r. label r \<notin> set labels) (rows df)\<rparr>))"

text \<open>
  Cell 6: \<^verbatim>\<open>train_data = sampled_data.sample(frac=.9)\<close> and
  \<^verbatim>\<open>validation_data = sampled_data.drop(train_data.index)\<close>.
\<close>

definition split_train_validation ::
  "dataframe \<Rightarrow> nat list \<Rightarrow> py_error + dataframe \<times> dataframe" where
  "split_train_validation sampled_data locs =
     (case df_sample (9 / 10) sampled_data locs of
        Inl e \<Rightarrow> Inl e
      | Inr train_data \<Rightarrow>
          (case df_drop (index train_data) sampled_data of
             Inl e \<Rightarrow> Inl e
           | Inr validation_data \<Rightarrow> Inr (train_data, validation_data)))"

text \<open>
  Cells 26, 33 and 39:
  \<^verbatim>\<open>train_data = model_df.sample(frac=.7)\<close>,
  \<^verbatim>\<open>validation_data = model_df.drop(train_data.index).sample(frac=.66)\<close>,
  \<^verbatim>\<open>test_data = model_df.drop(train_data.index).drop(validation_data.index)\<close>.
  The two samples draw at \<open>locs1\<close> and \<open>locs2\<close>.
\<close>

definition split_train_validation_test ::
  "dataframe \<Rightarrow> nat list \<Rightarrow> nat list \<Rightarrow> py_error + dataframe \<times> dataframe \<times> dataframe" where
  "split_train_validation_test model_df locs1 locs2 =
     (case df_sample (7 / 10) model_df locs1 of
        Inl e \<Rightarrow> Inl e
      | Inr train_data \<Rightarrow>
          (case df_drop (index train_data) model_df of
             Inl e \<Rightarrow> Inl e
           | Inr rest \<Rightarrow>
               (case df_sample (66 / 100) rest locs2 of
                  Inl e \<Rightarrow> Inl e
                | Inr validation_data \<Rightarrow>
                    (case df_drop (index train_data) model_df of
                       Inl e \<Rightarrow> Inl e
                     | Inr rest' \<Rightarrow>
                         (case df_drop (index validation_data) rest' of
                            Inl e \<Rightarrow> Inl e
                          | Inr test_data \<Rightarrow> Inr (train_data, validation_data, test_data))))))"

text \<open>What is left of a frame once the rows at the positions \<open>locs\<close> are dropped by label.\<close>

definition rest_after :: "dataframe \<Rightarrow> nat list \<Rightarrow> dataframe" where
  "rest_after df locs =
     df\<lparr>rows := filter (\<lambda>r. label r \<notin> set (map (\<lambda>i. label (rows df ! i)) locs)) (rows df)\<rparr>"

text \<open>A frame over two columns whose rows carry the given labels.\<close>

definition ten_rows :: "nat list \<Rightarrow> dataframe" where
  "ten_rows labels =
     \<lparr>columns = [''conversion_rate'', ''rewarded''],
      rows = map (\<lambda>i. \<lparr>label = i, vals = [Some 0, Some 1]\<rparr>) labels\<rparr>"

section \<open>The evaluator (cells 9, 17, 29, 35 and 41)\<close>

text \<open>
  \<^verbatim>\<open>df.drop(names, axis=1)\<close>: the columns with one of the names go, in every row; a
  name that is no column raises KeyError. \<open>row_features\<close> is what is left of one row.
\<close>

definition row_features :: "string list \<Rightarrow> string list \<Rightarrow> row \<Rightarrow> rat option list" where
  "row_features names cols r = map snd (filter (\<lambda>(n, v). n \<notin> set names) (zip cols (vals r)))"

definition drop_columns :: "string list \<Rightarrow> dataframe \<Rightarrow> py_error + dataframe" where
  "drop_columns names df =
     (if list_ex (\<lambda>n. n \<notin> set (columns df)) names
      then Inl (KeyError ''labels not contained in axis'')
      else Inr \<lparr>columns = filter (\<lambda>n. n \<notin> set names) (columns df),
                rows = map (\<lambda>r. r\<lparr>vals := row_features names (columns df) r\<rparr>) (rows df)\<rparr>)"

text \<open>\<^verbatim>\<open>df.as_matrix()\<close>: one array of cells per row, in row order.\<close>

definition as_matrix :: "dataframe \<Rightarrow> rat option list list" where
  "as_matrix df = map vals (rows df)"

text \<open>
  The inference endpoint is opaque: \<^verbatim>\<open>ll_predictor.predict(array)\<close> followed by
  \<^verbatim>\<open>result['predictions'][0]['score']\<close> is a function from the array sent to a score,
  which is a float like the cells (the deserializer reads \<^verbatim>\<open>NaN\<close> as the missing value).
  The loop of \<^verbatim>\<open>predict\<close> appends one score per array; the model also records the
  arrays sent, in the order of the calls.
\<close>

type_synonym endpoint = "rat option list \<Rightarrow> rat option"

fun predict_loop ::
  "endpoint \<Rightarrow> rat option list list \<Rightarrow> rat option list \<times> rat option list list
     \<Rightarrow> rat option list \<times> rat option list list" where
  "predict_loop ll_predictor [] (predictions, sent) = (predictions, sent)"
| "predict_loop ll_predictor (array # data) (predictions, sent) =
     predict_loop ll_predictor data (predictions @ [ll_predictor array], sent @ [array])"

definition predict ::
  "endpoint \<Rightarrow> rat option list list \<Rightarrow> rat option list \<times> rat option list list" where
  "predict ll_predictor data = predict_loop ll_predictor data ([], [])"

text \<open>
  A column read as a series, the absolute difference of two series (a missing value on
  either side gives a missing value), and \<^verbatim>\<open>Series.mean()\<close>, which skips missing
  values and is missing (NaN) for a series without values.
\<close>

definition series :: "nat \<Rightarrow> dataframe \<Rightarrow> rat option list" where
  "series c df = map (\<lambda>r. cell r c) (rows df)"

fun abs_error :: "rat option \<Rightarrow> rat option \<Rightarrow> rat option" where
  "abs_error (Some p) (Some y) = Some \<bar>p - y\<bar>"
| "abs_error _ _ = None"

definition series_mean :: "rat option list \<Rightarrow> rat option" where
  "series_mean s =
     (let present = map the (filter (\<lambda>v. v \<noteq> None) s)
      in if present = [] then None else Some (sum_list present / of_nat (length present)))"

text \<open>
  The cell assigns the scores to the column \<^verbatim>\<open>prediction\<close> (an array of another length
  than the frame is refused) and their absolute difference from the column
  \<^verbatim>\<open>conversion_rate\<close> to the column \<^verbatim>\<open>error\<close>, then prints the mean of that series,
  and its mean over the rows with a positive conversion rate. The model returns the two
  numbers printed and the arrays sent to the endpoint.
\<close>

record evaluation =
  mean_average_error :: "rat option"
  mean_average_error_nonzero :: "rat option"
  endpoint_calls :: "rat option list list"

definition evaluate :: "endpoint \<Rightarrow> dataframe \<Rightarrow> py_error + evaluation" where
  "evaluate ll_predictor test_data =
     (case drop_columns [''conversion_rate''] test_data of
        Inl e \<Rightarrow> Inl e
      | Inr features \<Rightarrow>
          (case predict ll_predictor (as_matrix features) of
             (predictions, sent) \<Rightarrow>
               if length predictions \<noteq> len test_data then Inl ValueError
               else
                 (case get_col ''conversion_rate'' test_data of
                    Inl e \<Rightarrow> Inl e
                  | Inr c \<Rightarrow>
                      (let prediction = predictions;
                           error = map2 abs_error prediction (series c test_data);
                           nonzero = map snd (filter (\<lambda>(r, e). positive c r) (zip (rows test_data) error))
                       in Inr \<lparr>mean_average_error = series_mean error,
                                mean_average_error_nonzero = series_mean nonzero,
                                endpoint_calls = sent\<rparr>))))"

text \<open>
  A test frame of three rows without a missing value; the same frame with the conversion
  rate of the second row missing; and an endpoint that scores a quarter of the sum of the
  cells it is sent (NaN if one of them is missing).
\<close>

definition test_three :: dataframe where
  "test_three =
     \<lparr>columns = [''rewarded'', ''conversion_rate'', ''banner_height-50''],
      rows = [\<lparr>label = 4, vals = [Some 1, Some 0, Some 1]\<rparr>,
              \<lparr>label = 7, vals = [Some 0, Some (1 / 2), Some 1]\<rparr>,
              \<lparr>label = 9, vals = [Some 1, Some 1, Some 0]\<rparr>]\<rparr>"

definition test_missing :: dataframe where
  "test_missing =
     \<lparr>columns = [''rewarded'', ''conversion_rate'', ''banner_height-50''],
      rows = [\<lparr>label = 4, vals = [Some 1, Some 0, Some 1]\<rparr>,
              \<lparr>label = 7, vals = [Some 0, None, Some 1]\<rparr>,
              \<lparr>label = 9, vals = [Some 1, Some 1, Some 0]\<rparr>]\<rparr>"

definition endpoint_sum :: endpoint where
  "endpoint_sum array =
     (if list_ex (\<lambda>v. v = None) array then None else Some (sum_list (map the array) / 4))"

text \<open>
  The arithmetic mean of a series in float arithmetic, where a sum with a missing term is
  missing: what ``the mean over all rows'' is when no row is left out.
\<close>

definition arithmetic_mean :: "rat option list \<Rightarrow> rat option" where
  "arithmetic_mean s =
     (if s = [] \<or> list_ex (\<lambda>v. v = None) s then None
      else Some (sum_list (map the s) / of_nat (length s)))"

section \<open>The hyperparameter search driver (cell 13)\<close>

text \<open>
  What \<^verbatim>\<open>describe_hyper_parameter_tuning_job\<close> answers: the status of the tuning job and,
  when the answer has the key \<^verbatim>\<open>BestTrainingJob\<close>, the tuned hyperparameters of the
  best training job. The remote service is the sequence of its answers: the answer to the
  \<open>n\<close>-th call, or the exception the call raises.
\<close>

record tuning_job_result =
  HyperParameterTuningJobStatus :: string
  BestTrainingJob :: "(string \<times> string) list option"

type_synonym sage_client = "nat \<Rightarrow> py_error + tuning_job_result"

text \<open>
  The loop \<^verbatim>\<open>while tuning_job_result['HyperParameterTuningJobStatus'] != 'Completed'\<close>:
  print, sleep 60 seconds, describe again. \<open>i\<close> counts the calls made after the first.
  The loop has no other exit, so it is a partial function: \<open>None\<close> is a run that never
  leaves the loop.
\<close>

partial_function (option) wait_loop ::
  "sage_client \<Rightarrow> nat \<Rightarrow> tuning_job_result \<Rightarrow> (py_error + nat \<times> tuning_job_result) option" where
  "wait_loop describe i tuning_job_result =
     (if HyperParameterTuningJobStatus tuning_job_result \<noteq> ''Completed''
      then (case describe (Suc i) of
              Inl e \<Rightarrow> Some (Inl e)
            | Inr r \<Rightarrow> wait_loop describe (Suc i) r)
      else Some (Inr (i, tuning_job_result)))"

text \<open>
  The cell: the first call, the loop, then
  \<^verbatim>\<open>tuned_hyper_params = tuning_job_result['BestTrainingJob']['TunedHyperParameters']\<close>.
  The result carries the number of the call whose answer was read.
\<close>

definition block_until_tuning_finishes ::
  "sage_client \<Rightarrow> (py_error + nat \<times> (string \<times> string) list) option" where
  "block_until_tuning_finishes describe =
     (case describe 0 of
        Inl e \<Rightarrow> Some (Inl e)
      | Inr first \<Rightarrow>
          (case wait_loop describe 0 first of
             None \<Rightarrow> None
           | Some (Inl e) \<Rightarrow> Some (Inl e)
           | Some (Inr (i, tuning_job_result)) \<Rightarrow>
               (case BestTrainingJob tuning_job_result of
                  None \<Rightarrow> Some (Inl (KeyError ''BestTrainingJob''))
                | Some tuned_hyper_params \<Rightarrow> Some (Inr (i, tuned_hyper_params)))))"

text \<open>
  Two services: a tuning job that is in progress for two calls and has failed from the
  third call on, and one that is in progress for two calls and completed from the third on.
\<close>

definition tuning_failed :: sage_client where
  "tuning_failed n =
     Inr \<lparr>HyperParameterTuningJobStatus = (if n < 2 then ''InProgress'' else ''Failed''),
          BestTrainingJob = None\<rparr>"

definition tuning_completes :: sage_client where
  "tuning_completes n =
     (if n < 2
      then Inr \<lparr>HyperParameterTuningJobStatus = ''InProgress'', BestTrainingJob = None\<rparr>
      else Inr \<lparr>HyperParameterTuningJobStatus = ''Completed'',
                BestTrainingJob = Some [(''learning_rate'', ''0.02''), (''use_bias'', ''True'')]\<rparr>)"

section \<open>The model inspector (cells 20 and 22)\<close>

text \<open>
  \<^verbatim>\<open>col.split('-')[0]\<close> is the part of \<open>col\<close> before the first separator (all of
  \<open>col\<close> when it has none); \<^verbatim>\<open>s.startswith(pre)\<close>.
\<close>

definition split_first :: "char \<Rightarrow> string \<Rightarrow> string" where
  "split_first sep col = takeWhile (\<lambda>ch. ch \<noteq> sep) col"

definition startswith :: "string \<Rightarrow> string \<Rightarrow> bool" where
  "startswith s pre \<longleftrightarrow> take (length pre) s = pre"

text \<open>
  \<^verbatim>\<open>set([col.split('-')[0] for col in sampled_data.columns[1:]])\<close>, listed in order of first
  occurrence (Python fixes no order for a set).
\<close>

definition top_level_features :: "string list \<Rightarrow> string list" where
  "top_level_features cols = remdups (map (split_first CHR ''-'') (tl cols))"

text \<open>
  Cell 20: the frame \<^verbatim>\<open>model_weights\<close> pairs the columns after the first with the
  weights of the fitted model; a weight vector of another length is refused.
\<close>

definition model_weights :: "string list \<Rightarrow> real list \<Rightarrow> py_error + (string \<times> real) list" where
  "model_weights cols weights =
     (if length weights \<noteq> length (tl cols) then Inl ValueError
      else Inr (zip (tl cols) weights))"

text \<open>
  The statistics of pandas on a series without missing values: mean, median (the middle
  value, or the mean of the two middle values), min, max, and the sample standard
  deviation (\<^verbatim>\<open>ddof=1\<close>), which is missing for fewer than two values.
\<close>

definition mean :: "real list \<Rightarrow> real option" where
  "mean xs = (if xs = [] then None else Some (sum_list xs / of_nat (length xs)))"

definition median :: "real list \<Rightarrow> real option" where
  "median xs =
     (let s = sort xs; n = length xs in
      if n = 0 then None
      else if odd n then Some (s ! (n div 2))
      else Some ((s ! (n div 2 - 1) + s ! (n div 2)) / 2))"

definition minimum :: "real list \<Rightarrow> real option" where
  "minimum xs = (case xs of [] \<Rightarrow> None | x # rest \<Rightarrow> Some (fold min rest x))"

definition maximum :: "real list \<Rightarrow> real option" where
  "maximum xs = (case xs of [] \<Rightarrow> None | x # rest \<Rightarrow> Some (fold max rest x))"

definition std :: "real list \<Rightarrow> real option" where
  "std xs =
     (if length xs < 2 then None
      else (let m = sum_list xs / of_nat (length xs)
            in Some (sqrt (sum_list (map (\<lambda>x. (x - m)\<^sup>2) xs) / of_nat (length xs - 1)))))"

text \<open>
  Cell 22: for each top-level feature, \<^verbatim>\<open>_weights\<close> is the part of \<^verbatim>\<open>model_weights\<close>
  whose feature name starts with it; mean, median, min and max are taken of the absolute
  weights, the standard deviation of the weights themselves.
\<close>

record feature_stats =
  features :: string
  mean_weight :: "real option"
  med_weight :: "real option"
  min_weight :: "real option"
  max_weight :: "real option"
  dev_weight :: "real option"

definition group_weights :: "string \<Rightarrow> (string \<times> real) list \<Rightarrow> real list" where
  "group_weights feature mw = map snd (filter (\<lambda>(f, w). startswith f feature) mw)"

definition feature_row :: "(string \<times> real) list \<Rightarrow> string \<Rightarrow> feature_stats" where
  "feature_row mw feature =
     (let group = group_weights feature mw in
      \<lparr>features = feature,
       mean_weight = mean (map abs group),
       med_weight = median (map abs group),
       min_weight = minimum (map abs group),
       max_weight = maximum (map abs group),
       dev_weight = std group\<rparr>)"

definition top_level_weights :: "string list \<Rightarrow> real list \<Rightarrow> py_error + feature_stats list" where
  "top_level_weights cols weights =
     (case model_weights cols weights of
        Inl e \<Rightarrow> Inl e
      | Inr mw \<Rightarrow> Inr (map (feature_row mw) (top_level_features cols)))"

text \<open>Columns of two one-hot encoded fields, the name of one a prefix of the other's.\<close>

definition columns_os :: "string list" where
  "columns_os = [''conversion_rate'', ''platform_os-ios'', ''platform_os_version-12'']"

section \<open>The names bound by the cells (cells 1 to 20)\<close>

text \<open>
  Whether a cell raises NameError depends only on which names are bound when each of its
  statements runs. A statement is modelled by the global names it evaluates, in the order
  of evaluation, the names it binds when it has finished (assignment, import, def), and the
  remote or file operations it performs once its names are evaluated. The kernel is the
  list of bound names and the log of the operations performed.
\<close>

record stmt =
  reads :: "string list"
  binds :: "string list"
  effects :: "string list"

record kernel =
  namespace :: "string list"
  performed :: "string list"

text \<open>
  A statement raises NameError at the first name it evaluates that is not bound, before it
  performs or binds anything; a run of statements stops at the first exception.
\<close>

definition exec_stmt :: "kernel \<Rightarrow> stmt \<Rightarrow> py_error + kernel" where
  "exec_stmt k s =
     (case find (\<lambda>n. n \<notin> set (namespace k)) (reads s) of
        Some n \<Rightarrow> Inl (NameError n)
      | None \<Rightarrow> Inr \<lparr>namespace = binds s @ namespace k, performed = performed k @ effects s\<rparr>)"

fun run_stmts :: "kernel \<Rightarrow> stmt list \<Rightarrow> kernel \<times> py_error option" where
  "run_stmts k [] = (k, None)"
| "run_stmts k (s # rest) =
     (case exec_stmt k s of
        Inl e \<Rightarrow> (k, Some e)
      | Inr k' \<Rightarrow> run_stmts k' rest)"

text \<open>
  A fresh kernel binds the built-in names; these are the ones the cells evaluate.
  (\<^verbatim>\<open>print\<close> is a statement of Python 2, not a name.)
\<close>

definition fresh_kernel :: kernel where
  "fresh_kernel =
     \<lparr>namespace = [''len'', ''int'', ''list'', ''set'', ''open'', ''True'', ''False''],
      performed = []\<rparr>"

text \<open>
  The code cells of the notebook up to the model inspection, statement by statement, under
  the numbers of their cells (the other cells up to there are text). In cell 1 the three
  shell lines come first and the imports follow. In cell 13 the loop statement is listed
  with the name its condition evaluates; the names its body evaluates are bound as well.
\<close>

definition cell_1 :: "stmt list" where
  "cell_1 =
     [\<lparr>reads = [], binds = [], effects = [''pip install'', ''pip install'', ''pip install'']\<rparr>,
      \<lparr>reads = [],
       binds = [''boto3'', ''sagemaker'', ''get_image_uri'', ''csv_serializer'',
                ''json_deserializer'', ''get_execution_role'', ''time'', ''np'', ''pd'', ''os'',
                ''sys'', ''tarfile'', ''joblib'', ''json'', ''xgboost'', ''plt'', ''mx'',
                ''TrainingJobAnalytics''],
       effects = []\<rparr>]"

definition cell_2 :: "stmt list" where
  "cell_2 =
     [\<lparr>reads = [''pd''], binds = [''df''], effects = []\<rparr>,
      \<lparr>reads = [''df''], binds = [], effects = []\<rparr>]"

definition cell_4 :: "stmt list" where
  "cell_4 =
     [\<lparr>reads = [''df'', ''df''], binds = [''sampled_data''], effects = []\<rparr>,
      \<lparr>reads = [''len'', ''sampled_data'', ''len'', ''df'', ''len'', ''sampled_data''],
       binds = [''sample_rate''], effects = []\<rparr>,
      \<lparr>reads = [''sample_rate''], binds = [], effects = []\<rparr>,
      \<lparr>reads = [''pd'', ''sampled_data'', ''df'', ''sample_rate''],
       binds = [''sampled_data''], effects = []\<rparr>,
      \<lparr>reads = [''sampled_data''], binds = [], effects = []\<rparr>]"

definition cell_6 :: "stmt list" where
  "cell_6 =
     [\<lparr>reads = [''sampled_data''], binds = [''train_data''], effects = []\<rparr>,
      \<lparr>reads = [''sampled_data'', ''train_data''], binds = [''validation_data''], effects = []\<rparr>,
      \<lparr>reads = [''pd'', ''train_data'', ''train_data''], binds = [], effects = [''to_csv'']\<rparr>,
      \<lparr>reads = [''pd'', ''validation_data'', ''validation_data''], binds = [],
       effects = [''to_csv'']\<rparr>,
      \<lparr>reads = [], binds = [''bucket''], effects = []\<rparr>,
      \<lparr>reads = [], binds = [''prefix''], effects = []\<rparr>,
      \<lparr>reads = [''boto3'', ''bucket'', ''os'', ''prefix''], binds = [], effects = [''upload_file'']\<rparr>,
      \<lparr>reads = [''boto3'', ''bucket'', ''os'', ''prefix''], binds = [], effects = [''upload_file'']\<rparr>,
      \<lparr>reads = [''os''], binds = [], effects = [''remove'']\<rparr>,
      \<lparr>reads = [''os''], binds = [], effects = [''remove'']\<rparr>,
      \<lparr>reads = [''train_data''], binds = [], effects = []\<rparr>]"

text \<open>Cells 7 and 15 start with the same four assignments; cells 9 and 17 differ in nothing.\<close>

definition train_setup :: "stmt list" where
  "train_setup =
     [\<lparr>reads = [''get_image_uri'', ''boto3''], binds = [''container''], effects = []\<rparr>,
      \<lparr>reads = [], binds = [''bucket''], effects = []\<rparr>,
      \<lparr>reads = [], binds = [''prefix''], effects = []\<rparr>,
      \<lparr>reads = [''sagemaker''], binds = [''session''], effects = []\<rparr>]"

definition cell_7 :: "stmt list" where
  "cell_7 =
     train_setup @
     [\<lparr>reads = [''get_execution_role''], binds = [''role''], effects = []\<rparr>,
      \<lparr>reads = [''sagemaker'', ''container'', ''role'', ''bucket'', ''prefix'', ''session''],
       binds = [''ll''], effects = []\<rparr>,
      \<lparr>reads = [''ll'', ''len'', ''sampled_data''], binds = [], effects = []\<rparr>,
      \<lparr>reads = [''sagemaker'', ''bucket'', ''prefix''], binds = [''s3_input_train''], effects = []\<rparr>,
      \<lparr>reads = [''sagemaker'', ''bucket'', ''prefix''], binds = [''s3_input_validation''],
       effects = []\<rparr>,
      \<lparr>reads = [''int'', ''time''], binds = [''job_name''], effects = []\<rparr>,
      \<lparr>reads = [''ll'', ''s3_input_train'', ''job_name''], binds = [], effects = [''fit'']\<rparr>]"

definition evaluate_stmts :: "stmt list" where
  "evaluate_stmts =
     [\<lparr>reads = [''ll''], binds = [''ll_predictor''], effects = [''deploy'']\<rparr>,
      \<lparr>reads = [''ll_predictor''], binds = [], effects = []\<rparr>,
      \<lparr>reads = [''csv_serializer'', ''ll_predictor''], binds = [], effects = []\<rparr>,
      \<lparr>reads = [''json_deserializer'', ''ll_predictor''], binds = [], effects = []\<rparr>,
      \<lparr>reads = [], binds = [''predict''], effects = []\<rparr>,
      \<lparr>reads = [''predict'', ''test_data'', ''ll_predictor'', ''np'', ''test_data''], binds = [],
       effects = [''invoke_endpoint'']\<rparr>,
      \<lparr>reads = [''np'', ''test_data'', ''test_data'', ''test_data''], binds = [], effects = []\<rparr>,
      \<lparr>reads = [''test_data''], binds = [], effects = []\<rparr>,
      \<lparr>reads = [''test_data'', ''test_data''], binds = [], effects = []\<rparr>]"

definition cell_9 :: "stmt list" where
  "cell_9 = \<lparr>reads = [''pd''], binds = [''test_data''], effects = []\<rparr> # evaluate_stmts"

definition cell_12 :: "stmt list" where
  "cell_12 =
     [\<lparr>reads = [],
       binds = [''IntegerParameter'', ''CategoricalParameter'', ''ContinuousParameter'',
                ''HyperparameterTuner''],
       effects = []\<rparr>,
      \<lparr>reads = [''ContinuousParameter'', ''ContinuousParameter'', ''ContinuousParameter'',
                ''IntegerParameter'', ''CategoricalParameter'', ''True'', ''False'',
                ''ContinuousParameter''],
       binds = [''hyperparameter_ranges''], effects = []\<rparr>,
      \<lparr>reads = [], binds = [''objective_metric_name''], effects = []\<rparr>,
      \<lparr>reads = [''HyperparameterTuner'', ''ll'', ''objective_metric_name'', ''hyperparameter_ranges''],
       binds = [''tuner''], effects = []\<rparr>,
      \<lparr>reads = [''int'', ''time''], binds = [''job_name''], effects = []\<rparr>,
      \<lparr>reads = [''tuner'', ''s3_input_train'', ''s3_input_validation'', ''False'', ''job_name''],
       binds = [], effects = [''fit'']\<rparr>]"

definition cell_13 :: "stmt list" where
  "cell_13 =
     [\<lparr>reads = [''boto3'', ''boto3''], binds = [''sage_client''], effects = []\<rparr>,
      \<lparr>reads = [''sage_client'', ''job_name''], binds = [''tuning_job_result''],
       effects = [''describe_hyper_parameter_tuning_job'']\<rparr>,
      \<lparr>reads = [''tuning_job_result''], binds = [], effects = []\<rparr>,
      \<lparr>reads = [''tuning_job_result''], binds = [''tuned_hyper_params''], effects = []\<rparr>]"

definition cell_15 :: "stmt list" where
  "cell_15 =
     train_setup @
     [\<lparr>reads = [''sagemaker'', ''container'', ''role'', ''bucket'', ''prefix'', ''session''],
       binds = [''ll''], effects = []\<rparr>,
      \<lparr>reads = [''ll'', ''len'', ''sampled_data'', ''tuned_hyper_params''], binds = [],
       effects = []\<rparr>,
      \<lparr>reads = [''sagemaker'', ''bucket'', ''prefix''], binds = [''s3_input_train''], effects = []\<rparr>,
      \<lparr>reads = [''int'', ''time''], binds = [''job_name''], effects = []\<rparr>,
      \<lparr>reads = [''ll'', ''s3_input_train'', ''job_name''], binds = [], effects = [''fit'']\<rparr>]"

definition cell_17 :: "stmt list" where
  "cell_17 = \<lparr>reads = [''pd''], binds = [''test_data''], effects = []\<rparr> # evaluate_stmts"

definition cell_20 :: "stmt list" where
  "cell_20 =
     [\<lparr>reads = [], binds = [''os'', ''mx'', ''boto3''], effects = []\<rparr>,
      \<lparr>reads = [''prefix'', ''jobname''], binds = [''key''], effects = []\<rparr>,
      \<lparr>reads = [''boto3'', ''bucket'', ''key''], binds = [], effects = [''download_file'']\<rparr>,
      \<lparr>reads = [''os''], binds = [], effects = [''tar'']\<rparr>,
      \<lparr>reads = [''os''], binds = [], effects = [''unzip'']\<rparr>,
      \<lparr>reads = [''mx''], binds = [''mod''], effects = []\<rparr>,
      \<lparr>reads = [''mod''], binds = [''weights''], effects = []\<rparr>,
      \<lparr>reads = [''pd'', ''list'', ''sampled_data''], binds = [''model_weights''], effects = []\<rparr>,
      \<lparr>reads = [''model_weights''], binds = [], effects = []\<rparr>,
      \<lparr>reads = [''weights'', ''model_weights''], binds = [], effects = []\<rparr>,
      \<lparr>reads = [''model_weights''], binds = [], effects = []\<rparr>]"

definition cells_before_20 :: "stmt list" where
  "cells_before_20 =
     cell_1 @ cell_2 @ cell_4 @ cell_6 @ cell_7 @ cell_9 @ cell_12 @ cell_13 @ cell_15 @ cell_17"

section \<open>The final deployment and the descriptor file (cells 43 and 44)\<close>

text \<open>
  The training service is used through version 1 of the SageMaker Python SDK
  (\<^verbatim>\<open>get_image_uri\<close>, \<^verbatim>\<open>s3_input\<close>, \<^verbatim>\<open>train_instance_count\<close>). Of an estimator the
  model keeps the name of its latest training job; of the service, the names of the
  training jobs and of the endpoints that exist. Every remote call may fail: the fault, if
  any, is an input of the model.

  \<^verbatim>\<open>ll.fit(inputs, job_name=job_name)\<close> starts a training job of that name (names are
  unique in the service) and makes it the estimator's latest.
  \<^verbatim>\<open>ll.deploy(...)\<close>, called without \<^verbatim>\<open>endpoint_name\<close>, needs a latest training job
  and creates an endpoint that carries its name; the predictor it returns is modelled by
  the name of its endpoint.
\<close>

record estimator =
  latest_training_job :: "string option"

record sagemaker_service =
  training_jobs :: "string list"
  endpoints :: "string list"

definition fit ::
  "estimator \<Rightarrow> string \<Rightarrow> sagemaker_service \<Rightarrow> py_error option
     \<Rightarrow> py_error + estimator \<times> sagemaker_service" where
  "fit ll job_name service fault =
     (case fault of
        Some e \<Rightarrow> Inl e
      | None \<Rightarrow>
          if job_name \<in> set (training_jobs service)
          then Inl (RemoteFault ''training job name already in use'')
          else Inr (ll\<lparr>latest_training_job := Some job_name\<rparr>,
                    service\<lparr>training_jobs := job_name # training_jobs service\<rparr>))"

definition deploy ::
  "estimator \<Rightarrow> sagemaker_service \<Rightarrow> py_error option \<Rightarrow> py_error + string \<times> sagemaker_service" where
  "deploy ll service fault =
     (case latest_training_job ll of
        None \<Rightarrow> Inl ValueError
      | Some name \<Rightarrow>
          (case fault of
             Some e \<Rightarrow> Inl e
           | None \<Rightarrow>
               if name \<in> set (endpoints service)
               then Inl (RemoteFault ''endpoint name already in use'')
               else Inr (name, service\<lparr>endpoints := name # endpoints service\<rparr>)))"

text \<open>
  Cell 43: a new estimator, \<^verbatim>\<open>job_name = 'canary-cpi-model-sampled-{timestamp}'\<close> with
  the digits of \<^verbatim>\<open>int(time.time())\<close> for the timestamp, \<^verbatim>\<open>ll.fit\<close>, then
  \<^verbatim>\<open>ll_predictor = ll.deploy(...)\<close>.
\<close>

definition redeploy_tuned_model ::
  "string \<Rightarrow> sagemaker_service \<Rightarrow> py_error option \<Rightarrow> py_error option
     \<Rightarrow> py_error + string \<times> string \<times> sagemaker_service" where
  "redeploy_tuned_model timestamp service fit_fault deploy_fault =
     (let ll = \<lparr>latest_training_job = None\<rparr>;
          job_name = ''canary-cpi-model-sampled-'' @ timestamp
      in case fit ll job_name service fit_fault of
           Inl e \<Rightarrow> Inl e
         | Inr (ll, service) \<Rightarrow>
             (case deploy ll service deploy_fault of
                Inl e \<Rightarrow> Inl e
              | Inr (ll_predictor, service) \<Rightarrow> Inr (job_name, ll_predictor, service)))"

text \<open>
  Cell 44: \<^verbatim>\<open>features = list(sampled_data.columns)\<close>,
  \<^verbatim>\<open>features.remove('conversion_rate')\<close> (the first occurrence goes; ValueError when there
  is none), and the dictionary \<^verbatim>\<open>prod_model\<close> written as JSON to
  \<^verbatim>\<open>data/prod_model.json\<close>. The model returns the object written.
\<close>

datatype json = JString string | JList "json list" | JObject "(string \<times> json) list"

definition list_remove :: "string \<Rightarrow> string list \<Rightarrow> py_error + string list" where
  "list_remove x xs = (if x \<in> set xs then Inr (remove1 x xs) else Inl ValueError)"

definition save_model_features :: "dataframe \<Rightarrow> string \<Rightarrow> py_error + json" where
  "save_model_features sampled_data job_name =
     (case list_remove ''conversion_rate'' (columns sampled_data) of
        Inl e \<Rightarrow> Inl e
      | Inr features' \<Rightarrow>
          Inr (JObject [(''features'', JList (map JString features')),
                        (''endpoint_name'', JString job_name)]))"

text \<open>A service that holds the training job and the endpoint of an earlier run.\<close>

definition earlier_service :: sagemaker_service where
  "earlier_service = \<lparr>training_jobs = [''canary-cpi-model-sampled-1543500000''],
                  endpoints = [''canary-cpi-model-sampled-1543500000'']\<rparr>"

section \<open>Properties of the resampler\<close>

lemma positive_relabel: "positive c (r\<lparr>label := i\<rparr>) = positive c r"
  by (simp add: positive_def cell_def)

lemma mset_nth_draw:
  assumes "distinct locs" and "\<forall>i\<in>set locs. i < length xs"
  shows "mset (map (\<lambda>i. xs ! i) locs) \<subseteq># mset xs"
proof -
  have "set locs \<subseteq> {0..<length xs}" using assms(2) by auto
  then have "mset_set (set locs) \<subseteq># mset_set {0..<length xs}"
    by (simp add: subset_imp_msubset_mset_set)
  moreover have "mset_set (set locs) = mset locs"
    using assms(1) by (rule mset_set_set)
  moreover have "mset_set {0..<length xs} = mset [0..<length xs]"
    by (simp only: mset_upt)
  ultimately have "mset locs \<subseteq># mset [0..<length xs]"
    by (simp only:)
  then have "image_mset (\<lambda>i. xs ! i) (mset locs) \<subseteq># image_mset (\<lambda>i. xs ! i) (mset [0..<length xs])"
    by (rule image_mset_subseteq_mono)
  then have "mset (map (\<lambda>i. xs ! i) locs) \<subseteq># mset (map (\<lambda>i. xs ! i) [0..<length xs])"
    by (simp only: mset_map)
  then show ?thesis by (simp only: map_nth)
qed

lemma filter_draw_le:
  assumes "distinct locs" and "\<forall>i\<in>set locs. i < length xs"
  shows "length (filter P (map (\<lambda>i. xs ! i) locs)) \<le> length (filter P xs)"
proof -
  let ?hit = "filter (\<lambda>i. P (xs ! i)) locs"
  have "length (filter P (map (\<lambda>i. xs ! i) locs)) = length ?hit"
    by (simp add: filter_map comp_def)
  also have "\<dots> = card (set ?hit)"
    using assms(1) by (metis distinct_card distinct_filter)
  also have "\<dots> \<le> card {i. i < length xs \<and> P (xs ! i)}"
    using assms(2) by (intro card_mono) auto
  also have "\<dots> = length (filter P xs)"
    by (simp add: length_filter_conv_card)
  finally show ?thesis .
qed

lemma filter_reset_index:
  "length (filter (positive c) (reset_index rs)) = length (filter (positive c) rs)"
proof -
  have "\<And>n. length (filter (positive c) (map (\<lambda>(i, r). r\<lparr>label := i\<rparr>) (enumerate n rs)))
      = length (filter (positive c) rs)"
    by (induction rs) (auto simp: positive_relabel)
  then show ?thesis by (simp add: reset_index_def)
qed

lemma length_reset_index: "length (reset_index rs) = length rs"
  by (simp add: reset_index_def)

lemma py_round_le:
  assumes "0 \<le> x" and "x \<le> of_nat t"
  shows "0 \<le> py_round x \<and> py_round x \<le> int t"
proof -
  have "\<lfloor>x + 1 / 2\<rfloor> \<le> int t"
  proof -
    have "x + 1 / 2 < of_int (int t + 1)" using assms(2) by simp
    then have "\<lfloor>x + 1 / 2\<rfloor> < int t + 1" by (simp only: floor_less_iff)
    then show ?thesis by simp
  qed
  moreover have "0 \<le> \<lfloor>x + 1 / 2\<rfloor>" using assms(1) by simp
  ultimately show ?thesis using assms(1) by (simp add: py_round_def)
qed

lemma py_round_gt:
  assumes "of_nat t + 1 \<le> x"
  shows "int t < py_round x"
proof -
  have "(0::rat) \<le> of_nat t" by simp
  then have "0 \<le> x" using assms by linarith
  moreover have "of_int (int t + 1) \<le> x + 1 / 2" using assms by simp
  then have "int t + 1 \<le> \<lfloor>x + 1 / 2\<rfloor>" by (simp only: le_floor_iff)
  ultimately show ?thesis by (simp add: py_round_def)
qed

lemma minority_count_le: "minority_count c df \<le> len df"
  by (simp add: minority_count_def len_def)

lemma len_loc_rows: "len (loc_rows (positive c) df) = minority_count c df"
  by (simp add: len_def loc_rows_def minority_count_def)

lemma sample_rate_zero:
  "minority_count c df = len df \<Longrightarrow> sample_rate (minority_count c df) (len df) = Inl ZeroDivisionError"
  by (simp add: sample_rate_def)

lemma sample_rate_value:
  assumes "minority_count c df < len df"
  shows "sample_rate (minority_count c df) (len df)
     = Inr (of_nat (minority_count c df) * 20 / of_nat (len df - minority_count c df))"
  using assms by (simp add: sample_rate_def of_nat_diff)

lemma rate_le_one_iff:
  assumes "C < T"
  shows "(of_nat C * 20 / of_nat (T - C) :: rat) \<le> 1 \<longleftrightarrow> 20 * int C \<le> int T - int C"
proof -
  have pos: "(0::rat) < of_nat (T - C)" using assms by simp
  have "(of_nat C * 20 / of_nat (T - C) :: rat) \<le> 1 \<longleftrightarrow> (of_nat C * 20 :: rat) \<le> of_nat (T - C)"
    using pos by (simp add: divide_le_eq)
  also have "\<dots> \<longleftrightarrow> (of_nat (C * 20) :: rat) \<le> of_nat (T - C)"
    by simp
  also have "\<dots> \<longleftrightarrow> C * 20 \<le> T - C"
    by (simp only: of_nat_le_iff)
  also have "\<dots> \<longleftrightarrow> 20 * int C \<le> int T - int C"
    using assms by linarith
  finally show ?thesis .
qed

lemma size_small_rate:
  assumes "C < T" and "(of_nat C * 20 / of_nat (T - C) :: rat) \<le> 1"
  shows "0 \<le> py_round (of_nat C * 20 / of_nat (T - C) * of_nat T)
     \<and> py_round (of_nat C * 20 / of_nat (T - C) * of_nat T) \<le> int T"
proof (rule py_round_le)
  let ?r = "of_nat C * 20 / of_nat (T - C) :: rat"
  have "0 \<le> ?r" by simp
  then show "0 \<le> ?r * of_nat T" by simp
  have "?r * of_nat T \<le> 1 * of_nat T"
    using assms(2) by (intro mult_right_mono) simp_all
  then show "?r * of_nat T \<le> of_nat T" by simp
qed

lemma size_large_rate:
  assumes "C < T" and "1 < (of_nat C * 20 / of_nat (T - C) :: rat)"
  shows "int T < py_round (of_nat C * 20 / of_nat (T - C) * of_nat T)"
proof (rule py_round_gt)
  let ?d = "of_nat (T - C) :: rat"
  have pos: "0 < ?d" using assms(1) by simp
  have "\<not> 20 * int C \<le> int T - int C"
    using assms rate_le_one_iff [OF assms(1)] by simp
  then have "T - C + 1 \<le> C * 20" using assms(1) by linarith
  then have "(of_nat (T - C + 1) :: rat) \<le> of_nat (C * 20)" by (simp only: of_nat_le_iff)
  then have num: "?d + 1 \<le> of_nat C * 20" by simp
  have "?d \<le> of_nat T" by simp
  then have "(of_nat T + 1) * ?d \<le> (?d + 1) * of_nat T"
    by (simp add: algebra_simps)
  also have "\<dots> \<le> (of_nat C * 20) * of_nat T"
    using num by (intro mult_right_mono) simp_all
  finally have "(of_nat T + 1) * ?d \<le> of_nat C * 20 * of_nat T" .
  then have "of_nat T + 1 \<le> of_nat C * 20 * of_nat T / ?d"
    using pos by (simp only: le_divide_eq) simp
  then show "of_nat T + 1 \<le> of_nat C * 20 / ?d * of_nat T"
    by simp
qed

lemma resample_zero:
  assumes "get_col ''conversion_rate'' df = Inr c" and "minority_count c df = len df"
  shows "resample df locs = Inl ZeroDivisionError"
  using assms by (simp add: resample_def len_loc_rows sample_rate_def)

lemma resample_large:
  assumes col: "get_col ''conversion_rate'' df = Inr c"
    and lt: "minority_count c df < len df"
    and rate: "sample_rate (minority_count c df) (len df) = Inr r"
    and big: "1 < r"
  shows "resample df locs = Inl ValueError"
proof -
  have r: "r = of_nat (minority_count c df) * 20 / of_nat (len df - minority_count c df)"
    using rate sample_rate_value [OF lt] by simp
  have "int (len df) < sample_size r df"
    unfolding sample_size_def r using size_large_rate [OF lt] big r by simp
  then have "df_sample r df locs = Inl ValueError"
    by (simp add: df_sample_def Let_def)
  then show ?thesis using col rate by (simp add: resample_def len_loc_rows)
qed

lemma resample_small:
  assumes col: "get_col ''conversion_rate'' df = Inr c"
    and lt: "minority_count c df < len df"
    and rate: "sample_rate (minority_count c df) (len df) = Inr r"
    and small: "r \<le> 1"
    and bound: "list_all (\<lambda>i. i < len df) locs"
  shows "resample df locs
     = Inr (concat_ignore_index (loc_rows (positive c) df) (df\<lparr>rows := map (\<lambda>i. rows df ! i) locs\<rparr>))"
proof -
  have r: "r = of_nat (minority_count c df) * 20 / of_nat (len df - minority_count c df)"
    using rate sample_rate_value [OF lt] by simp
  have "0 \<le> sample_size r df \<and> sample_size r df \<le> int (len df)"
    unfolding sample_size_def r using size_small_rate [OF lt] small r by simp
  then have "df_sample r df locs = Inr (df\<lparr>rows := map (\<lambda>i. rows df ! i) locs\<rparr>)"
    using bound by (simp add: df_sample_def Let_def df_take_def)
  then show ?thesis using col rate by (simp add: resample_def len_loc_rows)
qed

lemma resample_Inr_rate:
  assumes col: "get_col ''conversion_rate'' df = Inr c"
    and ok: "resample df locs = Inr out"
  shows "\<exists>r. sample_rate (minority_count c df) (len df) = Inr r \<and> r \<le> 1"
proof (cases "minority_count c df = len df")
  case True
  then show ?thesis using resample_zero [OF col True, of locs] ok by simp
next
  case False
  then have lt: "minority_count c df < len df"
    using minority_count_le [of c df] by simp
  let ?r = "of_nat (minority_count c df) * 20 / of_nat (len df - minority_count c df) :: rat"
  have rate: "sample_rate (minority_count c df) (len df) = Inr ?r"
    by (rule sample_rate_value [OF lt])
  have "?r \<le> 1"
  proof (rule ccontr)
    assume "\<not> ?r \<le> 1"
    then have "1 < ?r" by simp
    from resample_large [OF col lt rate this, of locs] ok show False by simp
  qed
  with rate show ?thesis by blast
qed

lemma ratio_le_iff:
  assumes "0 < b" and "0 < d"
  shows "(of_nat a / of_nat b :: rat) \<le> of_nat c / of_nat d \<longleftrightarrow> a * d \<le> c * b"
proof -
  have "(of_nat a / of_nat b :: rat) \<le> of_nat c / of_nat d
      \<longleftrightarrow> (of_nat a * of_nat d :: rat) \<le> of_nat c * of_nat b"
    using assms by (simp add: field_simps)
  also have "\<dots> \<longleftrightarrow> (of_nat (a * d) :: rat) \<le> of_nat (c * b)"
    by (simp only: of_nat_mult)
  also have "\<dots> \<longleftrightarrow> a * d \<le> c * b"
    by (simp only: of_nat_le_iff)
  finally show ?thesis .
qed

lemma ratio_eq_iff:
  assumes "0 < b" and "0 < d"
  shows "(of_nat a / of_nat b :: rat) = of_nat c / of_nat d \<longleftrightarrow> a * d = c * b"
proof -
  have "(of_nat a / of_nat b :: rat) = of_nat c / of_nat d
      \<longleftrightarrow> (of_nat a * of_nat d :: rat) = of_nat c * of_nat b"
    using assms by (simp add: field_simps)
  also have "\<dots> \<longleftrightarrow> (of_nat (a * d) :: rat) = of_nat (c * b)"
    by (simp only: of_nat_mult)
  also have "\<dots> \<longleftrightarrow> a * d = c * b"
    by (simp only: of_nat_eq_iff)
  finally show ?thesis .
qed

text \<open>C minority rows, D other rows; the draw holds k minority and m other rows.\<close>

lemma share_le:
  fixes C D k m :: nat
  assumes "m \<le> D"
  shows "C * (C + (k + m)) \<le> (C + k) * (C + D)"
proof -
  have le: "C * m \<le> C * D" using assms by (rule mult_le_mono2)
  have l: "C * (C + (k + m)) = C * C + C * k + C * m" by (simp add: algebra_simps)
  have r: "(C + k) * (C + D) = C * C + C * k + C * D + k * D" by (simp add: algebra_simps)
  show ?thesis unfolding l r using le by linarith
qed

lemma share_eq_iff:
  fixes C D k m :: nat
  assumes "m \<le> D" and "0 < C" and "0 < D"
  shows "C * (C + (k + m)) = (C + k) * (C + D) \<longleftrightarrow> m = D \<and> k = 0"
proof
  assume eq: "C * (C + (k + m)) = (C + k) * (C + D)"
  have le: "C * m \<le> C * D" using assms(1) by (rule mult_le_mono2)
  have l: "C * (C + (k + m)) = C * C + C * k + C * m" by (simp add: algebra_simps)
  have r: "(C + k) * (C + D) = C * C + C * k + C * D + k * D" by (simp add: algebra_simps)
  from eq have "C * m = C * D + k * D" unfolding l r by linarith
  with le have "k * D = 0" and "C * m = C * D" by linarith+
  then show "m = D \<and> k = 0" using assms by simp
next
  assume "m = D \<and> k = 0"
  then show "C * (C + (k + m)) = (C + k) * (C + D)" by simp
qed

lemma filter_split_length:
  "length (filter P xs) + length (filter (\<lambda>x. \<not> P x) xs) = length xs"
  by (induction xs) auto

lemma vals_reset_index: "map vals (reset_index rs) = map vals rs"
proof -
  have "\<And>n. map vals (map (\<lambda>(i, r). r\<lparr>label := i\<rparr>) (enumerate n rs)) = map vals rs"
    by (induction rs) auto
  then show ?thesis by (simp add: reset_index_def)
qed

lemma label_reset_index: "map label (reset_index rs) = [0..<length rs]"
proof -
  have "map label (reset_index rs) = map fst (zip [0..<length rs] rs)"
    by (simp add: reset_index_def enumerate_eq_zip split_beta comp_def)
  also have "\<dots> = [0..<length rs]"
    by (rule map_fst_zip) simp
  finally show ?thesis .
qed

lemma sample_rate_Inr_lt:
  assumes "sample_rate (minority_count c df) (len df) = Inr r"
  shows "minority_count c df < len df"
proof -
  have "minority_count c df \<noteq> len df"
    using assms by (auto simp: sample_rate_def)
  then show ?thesis using minority_count_le [of c df] by simp
qed

text \<open>
  The sizes that the float product can round to. Rounding is monotone, so that a product
  between two integers gives a size between them, whatever its error within a quarter.
\<close>

lemma py_round_mono:
  assumes "x \<le> y"
  shows "py_round x \<le> py_round y"
proof -
  consider "0 \<le> x" | "y < 0" | "x < 0" and "0 \<le> y" by linarith
  then show ?thesis
  proof cases
    case 1
    then have "0 \<le> y" using assms by simp
    moreover have "\<lfloor>x + 1 / 2\<rfloor> \<le> \<lfloor>y + 1 / 2\<rfloor>"
      using assms by (intro floor_mono) simp
    ultimately show ?thesis using 1 by (simp add: py_round_def)
  next
    case 2
    then have "x < 0" using assms by simp
    moreover have "\<lfloor>- y + 1 / 2\<rfloor> \<le> \<lfloor>- x + 1 / 2\<rfloor>"
      using assms by (intro floor_mono) simp
    ultimately show ?thesis using 2 by (simp add: py_round_def)
  next
    case 3
    have x: "py_round x = - \<lfloor>- x + 1 / 2\<rfloor>" using 3(1) by (simp add: py_round_def)
    have y: "py_round y = \<lfloor>y + 1 / 2\<rfloor>" using 3(2) by (simp add: py_round_def)
    have "0 \<le> \<lfloor>- x + 1 / 2\<rfloor>" using 3(1) by simp
    moreover have "0 \<le> \<lfloor>y + 1 / 2\<rfloor>" using 3(2) by simp
    ultimately show ?thesis unfolding x y by linarith
  qed
qed

lemma py_round_step: "py_round (y + 1 / 2) \<le> py_round y + 1"
proof -
  consider "0 \<le> y" | "y + 1 / 2 < 0" | "y < 0" and "0 \<le> y + 1 / 2" by linarith
  then show ?thesis
  proof cases
    case 1
    have a: "py_round (y + 1 / 2) = \<lfloor>y + 1 / 2 + 1 / 2\<rfloor>" using 1 by (simp add: py_round_def)
    have b: "py_round y = \<lfloor>y + 1 / 2\<rfloor>" using 1 by (simp add: py_round_def)
    show ?thesis unfolding a b by linarith
  next
    case 2
    then have "y < 0" by linarith
    have a: "py_round (y + 1 / 2) = - \<lfloor>- (y + 1 / 2) + 1 / 2\<rfloor>"
      using 2 by (simp only: py_round_def) simp
    have b: "py_round y = - \<lfloor>- y + 1 / 2\<rfloor>"
      using \<open>y < 0\<close> by (simp only: py_round_def) simp
    show ?thesis unfolding a b by linarith
  next
    case 3
    have a: "py_round (y + 1 / 2) = \<lfloor>y + 1 / 2 + 1 / 2\<rfloor>"
      using 3(2) by (simp only: py_round_def) simp
    have b: "py_round y = - \<lfloor>- y + 1 / 2\<rfloor>"
      using 3(1) by (simp only: py_round_def) simp
    show ?thesis unfolding a b using 3 by linarith
  qed
qed

lemma py_round_below: "py_round (of_int k - 1 / 4) = k"
proof (cases "1 \<le> k")
  case True
  then have "(1::rat) \<le> of_int k" by simp
  then have "(0::rat) \<le> of_int k - 1 / 4" by linarith
  moreover have "\<lfloor>(of_int k :: rat) - 1 / 4 + 1 / 2\<rfloor> = k"
    by (simp add: floor_unique)
  ultimately show ?thesis by (simp only: py_round_def if_True)
next
  case False
  then have "(of_int k :: rat) \<le> 0" by simp
  then have neg: "\<not> (0::rat) \<le> of_int k - 1 / 4" by simp
  have "\<lfloor>- ((of_int k :: rat) - 1 / 4) + 1 / 2\<rfloor> = - k"
    by (simp add: floor_unique)
  then show ?thesis using neg by (simp only: py_round_def if_False)
qed

lemma py_round_above: "py_round (of_int k + 1 / 4) = k"
proof (cases "0 \<le> k")
  case True
  then have "(0::rat) \<le> of_int k + 1 / 4" by simp
  moreover have "\<lfloor>(of_int k :: rat) + 1 / 4 + 1 / 2\<rfloor> = k"
    by (simp add: floor_unique)
  ultimately show ?thesis by (simp only: py_round_def if_True)
next
  case False
  then have "k \<le> - 1" by simp
  then have "(of_int k :: rat) \<le> of_int (- 1)" by (simp only: of_int_le_iff)
  then have neg: "\<not> (0::rat) \<le> of_int k + 1 / 4" by simp
  have "\<lfloor>- ((of_int k :: rat) + 1 / 4) + 1 / 2\<rfloor> = - k"
    by (simp add: floor_unique)
  then show ?thesis using neg by (simp only: py_round_def if_False)
qed

lemma sample_sizes_between:
  assumes size: "sample_sizes fr t n"
    and lower: "of_int a \<le> fr * of_nat t"
    and upper: "fr * of_nat t \<le> of_int b"
  shows "a \<le> n \<and> n \<le> b"
proof -
  have "py_round (of_int a - 1 / 4) \<le> py_round (fr * of_nat t - 1 / 4)"
    using lower by (intro py_round_mono) simp
  then have "a \<le> py_round (fr * of_nat t - 1 / 4)"
    by (simp only: py_round_below)
  moreover have "py_round (fr * of_nat t + 1 / 4) \<le> py_round (of_int b + 1 / 4)"
    using upper by (intro py_round_mono) simp
  then have "py_round (fr * of_nat t + 1 / 4) \<le> b"
    by (simp only: py_round_above)
  ultimately show ?thesis using size by (simp add: sample_sizes_def)
qed

text \<open>The size of the exact product is one of them.\<close>

lemma sample_size_admitted: "sample_sizes fr (len df) (sample_size fr df)"
  unfolding sample_sizes_def sample_size_def
  by (intro conjI py_round_mono) simp_all

text \<open>
  A size is one of them exactly when it is the rounding of some number within a quarter
  of the exact product.
\<close>

lemma sample_sizes_iff:
  "sample_sizes fr t n \<longleftrightarrow> (\<exists>x. \<bar>x - fr * of_nat t\<bar> \<le> 1 / 4 \<and> n = py_round x)"
proof
  assume "\<exists>x. \<bar>x - fr * of_nat t\<bar> \<le> 1 / 4 \<and> n = py_round x"
  then obtain x where x: "\<bar>x - fr * of_nat t\<bar> \<le> 1 / 4" and n: "n = py_round x" by blast
  have "fr * of_nat t - 1 / 4 \<le> x" and "x \<le> fr * of_nat t + 1 / 4"
    using x by linarith+
  then show "sample_sizes fr t n"
    unfolding sample_sizes_def n by (intro conjI py_round_mono)
next
  let ?p = "fr * of_nat t"
  assume size: "sample_sizes fr t n"
  show "\<exists>x. \<bar>x - ?p\<bar> \<le> 1 / 4 \<and> n = py_round x"
  proof (cases "n = py_round (?p - 1 / 4)")
    case True
    then show ?thesis by (intro exI [of _ "?p - 1 / 4"]) simp
  next
    case False
    have half: "?p - 1 / 4 + 1 / 2 = ?p + 1 / 4" by simp
    have "py_round (?p + 1 / 4) \<le> py_round (?p - 1 / 4) + 1"
      using py_round_step [of "?p - 1 / 4"] unfolding half .
    then have "n = py_round (?p + 1 / 4)"
      using size False by (simp add: sample_sizes_def)
    then show ?thesis by (intro exI [of _ "?p + 1 / 4"]) simp
  qed
qed

text \<open>
  For the rate of the resampler the sizes lie on the side of the length of the frame where
  the size of the exact product lies: none of them is refused when the rate is at most 1,
  all of them are when it is larger. For a rate of at most 1 they lie between 20 and 21
  times the number of converted rows.
\<close>

lemma rate_product_bounds:
  assumes lt: "C < T" and small: "(of_nat C * 20 / of_nat (T - C) :: rat) \<le> 1"
  shows "of_int (20 * int C) \<le> (of_nat C * 20 / of_nat (T - C) :: rat) * of_nat T"
    and "(of_nat C * 20 / of_nat (T - C) :: rat) * of_nat T \<le> of_int (21 * int C)"
proof -
  let ?d = "of_nat (T - C) :: rat"
  have pos: "0 < ?d" using lt by simp
  have T: "(of_nat T :: rat) = of_nat C + ?d" using lt by (simp add: of_nat_diff)
  have "20 * int C \<le> int T - int C" using small rate_le_one_iff [OF lt] by simp
  then have "20 * C \<le> T - C" using lt by linarith
  then have "(of_nat (20 * C) :: rat) \<le> of_nat (T - C)" by (simp only: of_nat_le_iff)
  then have le: "20 * (of_nat C :: rat) \<le> ?d" by simp
  have "(of_nat C * 20 / ?d) * of_nat T = of_nat C * 20 * (of_nat C + ?d) / ?d"
    by (simp add: T)
  also have "\<dots> = of_nat C * 20 + of_nat C * (20 * of_nat C / ?d)"
    using pos by (simp add: field_simps)
  finally have prod: "(of_nat C * 20 / ?d) * of_nat T
      = of_nat C * 20 + of_nat C * (20 * of_nat C / ?d)" .
  have q0: "0 \<le> 20 * (of_nat C :: rat) / ?d" using pos by simp
  have q1: "20 * (of_nat C :: rat) / ?d \<le> 1" using le pos by (simp add: divide_le_eq)
  have "0 \<le> (of_nat C :: rat) * (20 * of_nat C / ?d)"
    using q0 by (intro mult_nonneg_nonneg) simp_all
  then show "of_int (20 * int C) \<le> (of_nat C * 20 / ?d) * of_nat T"
    unfolding prod by simp
  have "(of_nat C :: rat) * (20 * of_nat C / ?d) \<le> of_nat C * 1"
    using q1 by (intro mult_left_mono) simp_all
  then show "(of_nat C * 20 / ?d) * of_nat T \<le> of_int (21 * int C)"
    unfolding prod by simp
qed

lemma sample_sizes_small_rate:
  assumes rate: "sample_rate (minority_count c df) (len df) = Inr r"
    and small: "r \<le> 1"
    and size: "sample_sizes r (len df) n"
  shows "20 * int (minority_count c df) \<le> n \<and> n \<le> 21 * int (minority_count c df)
     \<and> n \<le> int (len df)"
proof -
  have lt: "minority_count c df < len df" by (rule sample_rate_Inr_lt [OF rate])
  have r: "r = of_nat (minority_count c df) * 20 / of_nat (len df - minority_count c df)"
    using rate sample_rate_value [OF lt] by simp
  have between: "20 * int (minority_count c df) \<le> n \<and> n \<le> 21 * int (minority_count c df)"
    using sample_sizes_between [OF size [unfolded r] rate_product_bounds [OF lt small [unfolded r]]]
    by simp
  have "20 * int (minority_count c df) \<le> int (len df) - int (minority_count c df)"
    using small [unfolded r] rate_le_one_iff [OF lt] by simp
  then show ?thesis using between by linarith
qed

lemma sample_sizes_check:
  assumes rate: "sample_rate (minority_count c df) (len df) = Inr r"
    and size: "sample_sizes r (len df) n"
  shows "(r \<le> 1 \<longrightarrow> 0 \<le> n \<and> n \<le> int (len df)) \<and> (1 < r \<longrightarrow> int (len df) < n)"
proof (intro conjI impI)
  assume small: "r \<le> 1"
  from sample_sizes_small_rate [OF rate small size]
  show "0 \<le> n" and "n \<le> int (len df)" by linarith+
next
  assume big: "1 < r"
  have lt: "minority_count c df < len df" by (rule sample_rate_Inr_lt [OF rate])
  let ?C = "minority_count c df" and ?T = "len df"
  let ?d = "of_nat (?T - ?C) :: rat"
  have r: "r = of_nat ?C * 20 / ?d"
    using rate sample_rate_value [OF lt] by simp
  have pos: "0 < ?d" using lt by simp
  have "\<not> 20 * int ?C \<le> int ?T - int ?C"
    using big [unfolded r] rate_le_one_iff [OF lt] by simp
  then have "?T - ?C + 1 \<le> ?C * 20" using lt by linarith
  then have "(of_nat (?T - ?C + 1) :: rat) \<le> of_nat (?C * 20)" by (simp only: of_nat_le_iff)
  then have num: "?d + 1 \<le> of_nat ?C * 20" by simp
  have "?d \<le> of_nat ?T" by simp
  then have "(of_nat ?T + 1) * ?d \<le> (?d + 1) * of_nat ?T"
    by (simp add: algebra_simps)
  also have "\<dots> \<le> (of_nat ?C * 20) * of_nat ?T"
    using num by (intro mult_right_mono) simp_all
  finally have "(of_nat ?T + 1) * ?d \<le> of_nat ?C * 20 * of_nat ?T" .
  then have "of_nat ?T + 1 \<le> of_nat ?C * 20 * of_nat ?T / ?d"
    using pos by (simp only: le_divide_eq) simp
  then have lower: "of_int (int ?T + 1) \<le> r * of_nat ?T"
    unfolding r by simp
  have "py_round (of_int (int ?T + 1) - 1 / 4) \<le> py_round (r * of_nat ?T - 1 / 4)"
    using lower by (intro py_round_mono) simp
  then have "int ?T + 1 \<le> py_round (r * of_nat ?T - 1 / 4)"
    by (simp only: py_round_below)
  then show "int ?T < n" using size by (simp add: sample_sizes_def)
qed

text \<open>
  Claim C1, as amended. Whenever a sample rate is computed and is at most 1, the step
  produces the frame of the rows with a positive conversion rate followed by the \<open>n\<close>
  rows drawn from the whole input, relabelled \<open>0, 1, ...\<close>, for every size \<open>n\<close> that
  the rounding of the product of the rate and the number of rows can give; \<open>n\<close> is
  between 20 and 21 times the number of the rows with a positive conversion rate, and the
  rows are drawn without replacement: no row is drawn more often than it occurs in the
  input.
\<close>

theorem resample_output:
  assumes col: "get_col ''conversion_rate'' df = Inr c"
    and rate: "sample_rate (minority_count c df) (len df) = Inr r"
    and small: "r \<le> 1"
    and size: "sample_sizes r (len df) (int n)"
    and draw: "random_choice (len df) n locs"
  shows "\<exists>out. resample df locs = Inr out \<and>
           columns out = columns df \<and>
           map vals (rows out)
             = map vals (filter (positive c) (rows df)) @ map (\<lambda>i. vals (rows df ! i)) locs \<and>
           map label (rows out) = [0..<minority_count c df + n] \<and>
           mset (map (\<lambda>i. rows df ! i) locs) \<subseteq># mset (rows df) \<and>
           20 * minority_count c df \<le> n \<and> n \<le> 21 * minority_count c df"
proof -
  let ?out = "concat_ignore_index (loc_rows (positive c) df) (df\<lparr>rows := map (\<lambda>i. rows df ! i) locs\<rparr>)"
  have lt: "minority_count c df < len df" by (rule sample_rate_Inr_lt [OF rate])
  have bound: "list_all (\<lambda>i. i < len df) locs"
    using draw by (simp add: random_choice_def)
  have ok: "resample df locs = Inr ?out"
    by (rule resample_small [OF col lt rate small bound])
  have rows: "rows ?out = reset_index (filter (positive c) (rows df) @ map (\<lambda>i. rows df ! i) locs)"
    by (simp add: concat_ignore_index_def loc_rows_def)
  have cols: "columns ?out = columns df"
    by (simp add: concat_ignore_index_def loc_rows_def)
  have v: "map vals (rows ?out)
      = map vals (filter (positive c) (rows df)) @ map (\<lambda>i. vals (rows df ! i)) locs"
    unfolding rows vals_reset_index by (simp add: comp_def)
  have n: "length locs = n"
    using draw by (simp add: random_choice_def)
  have l: "map label (rows ?out) = [0..<minority_count c df + n]"
    unfolding rows label_reset_index by (simp add: minority_count_def n)
  have "distinct locs" and "\<forall>i\<in>set locs. i < length (rows df)"
    using draw by (simp_all add: random_choice_def list_all_iff len_def)
  then have m: "mset (map (\<lambda>i. rows df ! i) locs) \<subseteq># mset (rows df)"
    by (rule mset_nth_draw)
  have s: "20 * minority_count c df \<le> n \<and> n \<le> 21 * minority_count c df"
    using sample_sizes_small_rate [OF rate small size] by linarith
  show ?thesis using ok cols v l m s by blast
qed

text \<open>The theorem at a frame of 22 rows, one of them converted, drawing the first 21 rows.\<close>

theorem resample_output_witness:
  "get_col ''conversion_rate'' df_one_in_22 = Inr 0 \<and>
   sample_rate (minority_count 0 df_one_in_22) (len df_one_in_22) = Inr (20 / 21) \<and>
   (20 / 21 :: rat) \<le> 1 \<and>
   sample_sizes (20 / 21) (len df_one_in_22) (int 21) \<and>
   random_choice (len df_one_in_22) 21 [0..<21] \<and>
   (\<exists>out. resample df_one_in_22 [0..<21] = Inr out \<and>
      columns out = columns df_one_in_22 \<and>
      map vals (rows out)
        = map vals (filter (positive 0) (rows df_one_in_22))
          @ map (\<lambda>i. vals (rows df_one_in_22 ! i)) [0..<21] \<and>
      map label (rows out) = [0..<minority_count 0 df_one_in_22 + 21] \<and>
      mset (map (\<lambda>i. rows df_one_in_22 ! i) [0..<21]) \<subseteq># mset (rows df_one_in_22) \<and>
      20 * minority_count 0 df_one_in_22 \<le> 21 \<and> 21 \<le> 21 * minority_count 0 df_one_in_22)"
proof -
  have col: "get_col ''conversion_rate'' df_one_in_22 = Inr 0"
    by code_simp
  have rate: "sample_rate (minority_count 0 df_one_in_22) (len df_one_in_22) = Inr (20 / 21)"
    by code_simp
  have small: "(20 / 21 :: rat) \<le> 1"
    by simp
  have size: "sample_sizes (20 / 21) (len df_one_in_22) (int 21)"
    by code_simp
  have draw: "random_choice (len df_one_in_22) 21 [0..<21]"
    by code_simp
  from resample_output [OF col rate small size draw] col rate small size draw
  show ?thesis by (intro conjI)
qed

text \<open>
  Claim C1 as stated fails at a frame of one converted and one other row: the rate is 20,
  so 40 rows are requested of a frame of 2, which only a draw with replacement can give;
  the step raises ValueError whatever positions are offered, and there is no output.
\<close>

theorem resample_two_rows_counterexample:
  "get_col ''conversion_rate'' df_one_each = Inr 0 \<and>
   sample_rate (minority_count 0 df_one_each) (len df_one_each) = Inr 20 \<and>
   sample_size 20 df_one_each = 40 \<and>
   sample_sizes 20 (len df_one_each) 40 \<and>
   \<not> sample_sizes 20 (len df_one_each) 39 \<and>
   \<not> sample_sizes 20 (len df_one_each) 41 \<and>
   resample df_one_each (replicate 40 1) = Inl ValueError \<and>
   (\<forall>locs. resample df_one_each locs = Inl ValueError)"
proof -
  have col: "get_col ''conversion_rate'' df_one_each = Inr 0"
    by code_simp
  have lt: "minority_count 0 df_one_each < len df_one_each"
    by code_simp
  have rate: "sample_rate (minority_count 0 df_one_each) (len df_one_each) = Inr 20"
    by code_simp
  have size: "sample_size 20 df_one_each = 40"
    by code_simp
  have sizes: "sample_sizes 20 (len df_one_each) 40 \<and>
      \<not> sample_sizes 20 (len df_one_each) 39 \<and> \<not> sample_sizes 20 (len df_one_each) 41"
    by code_simp
  have big: "(1::rat) < 20"
    by simp
  have "\<And>locs. resample df_one_each locs = Inl ValueError"
    by (rule resample_large [OF col lt rate big])
  then show ?thesis using col rate size sizes by simp
qed

text \<open>
  Claim C2, as amended. For a frame with at least one converted row and a sample rate of
  at most 1, every output the step can produce holds the \<open>C\<close> converted rows and \<open>n\<close>
  drawn rows, \<open>k \<le> C\<close> of them converted, where \<open>n\<close>, a size that the rounding of the
  product of the rate and the number of rows can give, is between \<open>20 * C\<close> and
  \<open>21 * C\<close>. The share of converted rows in the output, \<open>(C + k) / (C + n)\<close>, is at
  least their share in the input, and it is the same exactly when the draw has \<open>T - C\<close>
  rows and none of them is converted; it is about 1/21: at least 1/22 and at most 2/21.
\<close>

theorem resample_ratio:
  assumes col: "get_col ''conversion_rate'' df = Inr c"
    and pos: "0 < minority_count c df"
    and rate: "sample_rate (minority_count c df) (len df) = Inr r"
    and small: "r \<le> 1"
    and size: "sample_sizes r (len df) (int n)"
    and draw: "random_choice (len df) n locs"
  shows "\<exists>out p q. resample df locs = Inr out \<and>
           len out = minority_count c df + n \<and>
           minority_count c out = minority_count c df + drawn_minority c df locs \<and>
           drawn_minority c df locs \<le> minority_count c df \<and>
           20 * minority_count c df \<le> n \<and> n \<le> 21 * minority_count c df \<and>
           minority_ratio c df = Some p \<and> minority_ratio c out = Some q \<and> p \<le> q \<and>
           (p = q \<longleftrightarrow> n = len df - minority_count c df \<and> drawn_minority c df locs = 0) \<and>
           1 / 22 \<le> q \<and> q \<le> 2 / 21"
proof -
  let ?drawn = "map (\<lambda>i. rows df ! i) locs"
  let ?out = "concat_ignore_index (loc_rows (positive c) df) (df\<lparr>rows := ?drawn\<rparr>)"
  let ?C = "minority_count c df" and ?T = "len df"
  let ?k = "drawn_minority c df locs"
  let ?m = "length (filter (\<lambda>x. \<not> positive c x) ?drawn)"
  let ?D = "length (filter (\<lambda>x. \<not> positive c x) (rows df))"
  have lt: "?C < ?T" by (rule sample_rate_Inr_lt [OF rate])
  have inside: "list_all (\<lambda>i. i < len df) locs"
    using draw by (simp add: random_choice_def)
  have ok: "resample df locs = Inr ?out"
    by (rule resample_small [OF col lt rate small inside])
  have rows: "rows ?out = reset_index (filter (positive c) (rows df) @ ?drawn)"
    by (simp add: concat_ignore_index_def loc_rows_def)
  have n: "length locs = n"
    using draw by (simp add: random_choice_def)
  have dist: "distinct locs" and bound: "\<forall>i\<in>set locs. i < length (rows df)"
    using draw by (simp_all add: random_choice_def list_all_iff len_def)
  have len_out: "len ?out = ?C + n"
    by (simp add: len_def rows length_reset_index minority_count_def n)
  have mc_out: "minority_count c ?out = ?C + ?k"
    by (simp add: minority_count_def rows filter_reset_index drawn_minority_def)
  have k_le: "?k \<le> ?C"
    unfolding drawn_minority_def minority_count_def by (rule filter_draw_le [OF dist bound])
  have m_le: "?m \<le> ?D"
    by (rule filter_draw_le [OF dist bound])
  have T: "?T = ?C + ?D"
    using filter_split_length [of "positive c" "rows df"] by (simp add: len_def minority_count_def)
  have nkm: "n = ?k + ?m"
    using filter_split_length [of "positive c" ?drawn] by (simp add: drawn_minority_def n)
  have n_le: "20 * ?C \<le> n" and n_ge: "n \<le> 21 * ?C"
    using sample_sizes_small_rate [OF rate small size] by linarith+
  have Dpos: "0 < ?D" using lt T by simp
  have Tpos: "0 < ?T" using lt by simp
  have outpos: "0 < ?C + n" using pos by simp
  let ?p = "of_nat ?C / of_nat ?T :: rat" and ?q = "of_nat (?C + ?k) / of_nat (?C + n) :: rat"
  have p: "minority_ratio c df = Some ?p"
    using Tpos by (simp add: minority_ratio_def)
  have "len ?out \<noteq> 0" using pos len_out by simp
  then have "minority_ratio c ?out = Some (of_nat (minority_count c ?out) / of_nat (len ?out))"
    by (simp only: minority_ratio_def if_False)
  then have q: "minority_ratio c ?out = Some ?q"
    by (simp only: len_out mc_out)
  have "?C * (?C + n) \<le> (?C + ?k) * ?T"
    unfolding nkm T by (rule share_le [OF m_le])
  then have le: "?p \<le> ?q"
    by (simp only: ratio_le_iff [OF Tpos outpos])
  have "?p = ?q \<longleftrightarrow> ?C * (?C + n) = (?C + ?k) * ?T"
    by (rule ratio_eq_iff [OF Tpos outpos])
  also have "\<dots> \<longleftrightarrow> ?C * (?C + (?k + ?m)) = (?C + ?k) * (?C + ?D)"
    using nkm T by simp
  also have "\<dots> \<longleftrightarrow> ?m = ?D \<and> ?k = 0"
    by (rule share_eq_iff [OF m_le pos Dpos])
  also have "\<dots> \<longleftrightarrow> n = ?T - ?C \<and> ?k = 0"
    using nkm T by auto
  finally have eq: "?p = ?q \<longleftrightarrow> n = ?T - ?C \<and> ?k = 0" .
  have "?C + n \<le> 22 * ?C + 22 * ?k" using n_ge by linarith
  then have "1 * (?C + n) \<le> (?C + ?k) * 22" by (simp add: algebra_simps)
  then have "(of_nat 1 / of_nat 22 :: rat) \<le> ?q"
    by (simp only: ratio_le_iff [of 22 "?C + n" 1 "?C + ?k", OF _ outpos] zero_less_numeral)
  then have low: "1 / 22 \<le> ?q" by simp
  have "21 * ?C + 21 * ?k \<le> 2 * ?C + 2 * n" using n_le k_le by linarith
  then have "(?C + ?k) * 21 \<le> 2 * (?C + n)" by (simp add: algebra_simps)
  then have "?q \<le> (of_nat 2 / of_nat 21 :: rat)"
    by (simp only: ratio_le_iff [of "?C + n" 21 "?C + ?k" 2, OF outpos] zero_less_numeral)
  then have high: "?q \<le> 2 / 21" by simp
  show ?thesis using ok len_out mc_out k_le n_le n_ge p q le eq low high by blast
qed

text \<open>
  The theorem at the frame of 22 rows, drawing the first 21 rows: the output holds 2
  converted rows in 22, a share of 1/11.
\<close>

theorem resample_ratio_witness:
  "get_col ''conversion_rate'' df_one_in_22 = Inr 0 \<and>
   0 < minority_count 0 df_one_in_22 \<and>
   sample_rate (minority_count 0 df_one_in_22) (len df_one_in_22) = Inr (20 / 21) \<and>
   (20 / 21 :: rat) \<le> 1 \<and>
   sample_sizes (20 / 21) (len df_one_in_22) (int 21) \<and>
   random_choice (len df_one_in_22) 21 [0..<21] \<and>
   (\<exists>out p q. resample df_one_in_22 [0..<21] = Inr out \<and>
      len out = minority_count 0 df_one_in_22 + 21 \<and>
      minority_count 0 out = minority_count 0 df_one_in_22 + drawn_minority 0 df_one_in_22 [0..<21] \<and>
      drawn_minority 0 df_one_in_22 [0..<21] \<le> minority_count 0 df_one_in_22 \<and>
      20 * minority_count 0 df_one_in_22 \<le> 21 \<and> 21 \<le> 21 * minority_count 0 df_one_in_22 \<and>
      minority_ratio 0 df_one_in_22 = Some p \<and> minority_ratio 0 out = Some q \<and> p \<le> q \<and>
      (p = q \<longleftrightarrow>
         21 = len df_one_in_22 - minority_count 0 df_one_in_22 \<and>
         drawn_minority 0 df_one_in_22 [0..<21] = 0) \<and>
      1 / 22 \<le> q \<and> q \<le> 2 / 21) \<and>
   minority_ratio 0 (projr (resample df_one_in_22 [0..<21])) = Some (1 / 11)"
proof -
  have col: "get_col ''conversion_rate'' df_one_in_22 = Inr 0"
    by code_simp
  have pos: "0 < minority_count 0 df_one_in_22"
    by code_simp
  have rate: "sample_rate (minority_count 0 df_one_in_22) (len df_one_in_22) = Inr (20 / 21)"
    by code_simp
  have small: "(20 / 21 :: rat) \<le> 1"
    by simp
  have size: "sample_sizes (20 / 21) (len df_one_in_22) (int 21)"
    by code_simp
  have draw: "random_choice (len df_one_in_22) 21 [0..<21]"
    by code_simp
  have share: "minority_ratio 0 (projr (resample df_one_in_22 [0..<21])) = Some (1 / 11)"
    by code_simp
  from resample_ratio [OF col pos rate small size draw] col pos rate small size draw share
  show ?thesis by (intro conjI)
qed

text \<open>
  Claim C2 as stated fails at the frame of 22 rows with one converted row: the rate is
  20/21, the product 440/21 rounds to 21 whatever its error within a quarter, and the draw
  of the 21 other rows gives an output of 22 rows with one converted row, the share of the
  input. It also fails at a frame without a converted row: the rate is 0 and the output is
  empty, so that it has no share at all.
\<close>

theorem resample_same_ratio_counterexample:
  "get_col ''conversion_rate'' df_one_in_22 = Inr 0 \<and>
   sample_rate (minority_count 0 df_one_in_22) (len df_one_in_22) = Inr (20 / 21) \<and>
   sample_size (20 / 21) df_one_in_22 = 21 \<and>
   sample_sizes (20 / 21) (len df_one_in_22) 21 \<and>
   \<not> sample_sizes (20 / 21) (len df_one_in_22) 20 \<and>
   \<not> sample_sizes (20 / 21) (len df_one_in_22) 22 \<and>
   random_choice (len df_one_in_22) 21 [1..<22] \<and>
   minority_ratio 0 df_one_in_22 = Some (1 / 22) \<and>
   (case resample df_one_in_22 [1..<22] of
      Inl e \<Rightarrow> False
    | Inr out \<Rightarrow> minority_ratio 0 out = Some (1 / 22)) \<and>
   get_col ''conversion_rate'' df_none_converted = Inr 0 \<and>
   sample_rate (minority_count 0 df_none_converted) (len df_none_converted) = Inr 0 \<and>
   sample_size 0 df_none_converted = 0 \<and>
   sample_sizes 0 (len df_none_converted) 0 \<and>
   random_choice (len df_none_converted) 0 [] \<and>
   minority_ratio 0 df_none_converted = Some 0 \<and>
   (case resample df_none_converted [] of
      Inl e \<Rightarrow> False
    | Inr out \<Rightarrow> minority_ratio 0 out = None)"
  by code_simp

text \<open>
  Claim C10, as amended. For a frame with a \<^verbatim>\<open>conversion_rate\<close> column, \<open>C\<close> rows with a
  positive conversion rate and \<open>T\<close> rows in all: when every row is converted
  (\<open>C = T\<close>) the step stops at the division, with ZeroDivisionError, and no sample rate
  is computed; when some row is not converted and \<open>20 * C > T - C\<close>, the sample rate
  exceeds 1 and the step stops with ValueError whatever positions the generator would
  draw; and the step produces a data set only when a sample rate was computed and is at
  most 1.
\<close>

theorem resample_precondition:
  assumes "get_col ''conversion_rate'' df = Inr c"
  shows "(minority_count c df = len df \<longrightarrow> resample df locs = Inl ZeroDivisionError) \<and>
         (minority_count c df < len df \<and>
          int (len df) - int (minority_count c df) < 20 * int (minority_count c df) \<longrightarrow>
            (\<exists>r. sample_rate (minority_count c df) (len df) = Inr r \<and> 1 < r) \<and>
            resample df locs = Inl ValueError) \<and>
         (\<forall>out. resample df locs = Inr out \<longrightarrow>
            (\<exists>r. sample_rate (minority_count c df) (len df) = Inr r \<and> r \<le> 1))"
proof (intro conjI impI allI)
  assume "minority_count c df = len df"
  then show "resample df locs = Inl ZeroDivisionError"
    by (rule resample_zero [OF assms])
next
  assume h: "minority_count c df < len df \<and>
          int (len df) - int (minority_count c df) < 20 * int (minority_count c df)"
  then have lt: "minority_count c df < len df" by simp
  let ?r = "of_nat (minority_count c df) * 20 / of_nat (len df - minority_count c df) :: rat"
  have rate: "sample_rate (minority_count c df) (len df) = Inr ?r"
    by (rule sample_rate_value [OF lt])
  have big: "1 < ?r"
    using h rate_le_one_iff [OF lt] by simp
  show "\<exists>r. sample_rate (minority_count c df) (len df) = Inr r \<and> 1 < r"
    using rate big by blast
  show "resample df locs = Inl ValueError"
    by (rule resample_large [OF assms lt rate big])
next
  fix out
  assume "resample df locs = Inr out"
  then show "\<exists>r. sample_rate (minority_count c df) (len df) = Inr r \<and> r \<le> 1"
    by (rule resample_Inr_rate [OF assms])
qed

text \<open>
  The theorem at three frames: one converted row alone (the division raises); one converted
  and one other row (the rate is 20, and the step raises ValueError); one converted row in
  22 (the step produces a data set, and the rate is at most 1).
\<close>

theorem resample_precondition_witness:
  "get_col ''conversion_rate'' df_all_converted = Inr 0 \<and>
   minority_count 0 df_all_converted = len df_all_converted \<and>
   resample df_all_converted [] = Inl ZeroDivisionError \<and>
   get_col ''conversion_rate'' df_one_each = Inr 0 \<and>
   minority_count 0 df_one_each < len df_one_each \<and>
   int (len df_one_each) - int (minority_count 0 df_one_each) < 20 * int (minority_count 0 df_one_each) \<and>
   sample_rate (minority_count 0 df_one_each) (len df_one_each) = Inr 20 \<and>
   resample df_one_each [0, 1] = Inl ValueError \<and>
   get_col ''conversion_rate'' df_one_in_22 = Inr 0 \<and>
   resample df_one_in_22 [0..<21] = Inr (projr (resample df_one_in_22 [0..<21])) \<and>
   (\<exists>r. sample_rate (minority_count 0 df_one_in_22) (len df_one_in_22) = Inr r \<and> r \<le> 1)"
proof -
  have col1: "get_col ''conversion_rate'' df_all_converted = Inr 0" by code_simp
  have all: "minority_count 0 df_all_converted = len df_all_converted" by code_simp
  have col2: "get_col ''conversion_rate'' df_one_each = Inr 0" by code_simp
  have n: "minority_count 0 df_one_each = 1" "len df_one_each = 2" by code_simp+
  have col3: "get_col ''conversion_rate'' df_one_in_22 = Inr 0" by code_simp
  have ok: "resample df_one_in_22 [0..<21] = Inr (projr (resample df_one_in_22 [0..<21]))"
    by code_simp
  have first: "resample df_all_converted [] = Inl ZeroDivisionError"
    using resample_precondition [OF col1, of "[]"] all by simp
  have second: "sample_rate (minority_count 0 df_one_each) (len df_one_each) = Inr 20 \<and>
      resample df_one_each [0, 1] = Inl ValueError"
    using resample_precondition [OF col2, of "[0, 1]"] by (simp add: n sample_rate_def)
  have third: "\<exists>r. sample_rate (minority_count 0 df_one_in_22) (len df_one_in_22) = Inr r \<and> r \<le> 1"
    using resample_precondition [OF col3, of "[0..<21]"] ok by blast
  show ?thesis
    using col1 all first col2 second col3 ok third by (simp add: n)
qed

text \<open>
  Claim C10 as stated fails where every row is converted: \<open>20 * C > T - C\<close> holds,
  yet the division raises, so that there is no sample rate to exceed 1.
\<close>

theorem resample_all_converted_counterexample:
  "get_col ''conversion_rate'' df_all_converted = Inr 0 \<and>
   int (len df_all_converted) - int (minority_count 0 df_all_converted)
     < 20 * int (minority_count 0 df_all_converted) \<and>
   sample_rate (minority_count 0 df_all_converted) (len df_all_converted) = Inl ZeroDivisionError \<and>
   resample df_all_converted [] = Inl ZeroDivisionError"
  by code_simp

section \<open>Properties of the splitter\<close>

lemma sample_size_frac:
  assumes "0 \<le> fr" and "fr \<le> 1"
  shows "0 \<le> sample_size fr df \<and> sample_size fr df \<le> int (len df)"
  unfolding sample_size_def
proof (rule py_round_le)
  show "0 \<le> fr * of_nat (len df)" using assms(1) by simp
  have "fr * of_nat (len df) \<le> 1 * of_nat (len df)"
    using assms(2) by (intro mult_right_mono) simp_all
  then show "fr * of_nat (len df) \<le> of_nat (len df)" by simp
qed

lemma df_sample_frac:
  assumes "0 \<le> fr" and "fr \<le> 1" and "random_choice (len df) n locs"
  shows "df_sample fr df locs = Inr (df\<lparr>rows := map (\<lambda>i. rows df ! i) locs\<rparr>)"
  using sample_size_frac [OF assms(1,2), of df] assms(3)
  by (simp add: df_sample_def Let_def df_take_def random_choice_def)

text \<open>Taking rows at distinct positions of a frame with a unique index, then dropping them.\<close>

lemma take_then_drop:
  assumes uniq: "distinct (map label R)"
    and dist: "distinct locs"
    and bound: "\<forall>i\<in>set locs. i < length R"
  defines "taken \<equiv> map (\<lambda>i. R ! i) locs"
  defines "left \<equiv> filter (\<lambda>r. label r \<notin> set (map label taken)) R"
  shows "mset taken + mset left = mset R"
    and "set (map label taken) \<inter> set (map label left) = {}"
    and "set (map label taken) \<subseteq> set (map label R)"
    and "distinct (map label left)"
proof -
  have inj: "inj_on label (set R)" and dR: "distinct R"
    using uniq by (simp_all add: distinct_map)
  have sub: "set taken \<subseteq> set R"
    using bound by (auto simp: taken_def)
  have dt: "distinct taken"
    unfolding taken_def using dist bound dR
    by (auto simp: distinct_map inj_on_def nth_eq_iff_index_eq)
  have mem: "\<And>r. r \<in> set R \<Longrightarrow> label r \<in> set (map label taken) \<longleftrightarrow> r \<in> set taken"
    using inj sub by (auto simp: inj_on_def)
  have left: "left = filter (\<lambda>r. r \<notin> set taken) R"
    unfolding left_def using mem by (intro filter_cong) auto
  have "mset (filter (\<lambda>r. r \<in> set taken) R) = mset taken"
  proof (rule set_eq_iff_mset_eq_distinct [THEN iffD1])
    show "distinct (filter (\<lambda>r. r \<in> set taken) R)" using dR by simp
    show "distinct taken" by (rule dt)
    show "set (filter (\<lambda>r. r \<in> set taken) R) = set taken" using sub by auto
  qed
  moreover have "mset (filter (\<lambda>r. r \<in> set taken) R) + mset (filter (\<lambda>r. r \<notin> set taken) R) = mset R"
    by (induction R) auto
  ultimately show "mset taken + mset left = mset R"
    by (simp only: left)
  have "\<And>r. r \<in> set left \<Longrightarrow> label r \<notin> set (map label taken)"
    unfolding left_def by simp
  then have "\<And>l. l \<in> set (map label left) \<Longrightarrow> l \<notin> set (map label taken)"
    by (metis (no_types, lifting) imageE list.set_map)
  then show "set (map label taken) \<inter> set (map label left) = {}"
    by blast
  show "set (map label taken) \<subseteq> set (map label R)"
    using sub by auto
  show "distinct (map label left)"
    unfolding left_def using uniq by (rule distinct_map_filter)
qed

lemma df_drop_taken:
  assumes "set labels \<subseteq> set (index df)"
  shows "df_drop labels df = Inr (df\<lparr>rows := filter (\<lambda>r. label r \<notin> set labels) (rows df)\<rparr>)"
  using assms by (auto simp: df_drop_def list_ex_iff)

lemma df_sample_Inr:
  assumes "df_sample fr df locs = Inr out"
  shows "out = df\<lparr>rows := map (\<lambda>i. rows df ! i) locs\<rparr> \<and> (\<forall>i\<in>set locs. i < length (rows df))"
  using assms
  by (auto simp: df_sample_def Let_def df_take_def list_all_iff len_def split: if_splits)

lemma df_drop_Inr:
  assumes "df_drop labels df = Inr out"
  shows "out = df\<lparr>rows := filter (\<lambda>r. label r \<notin> set labels) (rows df)\<rparr>"
  using assms by (auto simp: df_drop_def split: if_splits)

text \<open>
  Claim C3. For a frame with a unique row index, whatever rows the two samples draw
  without replacement, the train, validation and test frames that the split produces have
  pairwise disjoint index labels, each of their rows is a row of the input, and together
  they hold every row of the input exactly once.
\<close>

theorem split_partition:
  assumes uniq: "distinct (index model_df)"
    and draw1: "distinct locs1"
    and draw2: "distinct locs2"
    and split: "split_train_validation_test model_df locs1 locs2
                  = Inr (train_data, validation_data, test_data)"
  shows "set (index train_data) \<inter> set (index validation_data) = {} \<and>
         set (index train_data) \<inter> set (index test_data) = {} \<and>
         set (index validation_data) \<inter> set (index test_data) = {} \<and>
         set (rows train_data) \<subseteq> set (rows model_df) \<and>
         set (rows validation_data) \<subseteq> set (rows model_df) \<and>
         set (rows test_data) \<subseteq> set (rows model_df) \<and>
         mset (rows train_data) + mset (rows validation_data) + mset (rows test_data)
           = mset (rows model_df)"
proof -
  let ?R = "rows model_df"
  let ?t1 = "map (\<lambda>i. ?R ! i) locs1"
  let ?l1 = "filter (\<lambda>r. label r \<notin> set (map label ?t1)) ?R"
  let ?t2 = "map (\<lambda>i. ?l1 ! i) locs2"
  let ?l2 = "filter (\<lambda>r. label r \<notin> set (map label ?t2)) ?l1"
  from split obtain rest rest'
    where s1: "df_sample (7 / 10) model_df locs1 = Inr train_data"
      and dr1: "df_drop (index train_data) model_df = Inr rest"
      and s2: "df_sample (66 / 100) rest locs2 = Inr validation_data"
      and dr1': "df_drop (index train_data) model_df = Inr rest'"
      and dr2: "df_drop (index validation_data) rest' = Inr test_data"
    by (auto simp: split_train_validation_test_def split: sum.splits)
  from df_sample_Inr [OF s1] have train: "rows train_data = ?t1"
      and b1: "\<forall>i\<in>set locs1. i < length ?R"
    by simp_all
  from df_drop_Inr [OF dr1] train have rest: "rows rest = ?l1"
    by (simp add: index_def)
  from dr1 dr1' have same: "rest' = rest" by simp
  from df_sample_Inr [OF s2] rest have validation: "rows validation_data = ?t2"
      and b2: "\<forall>i\<in>set locs2. i < length ?l1"
    by simp_all
  from df_drop_Inr [OF dr2] same rest validation have test: "rows test_data = ?l2"
    by (simp add: index_def)
  have uR: "distinct (map label ?R)" using uniq by (simp add: index_def)
  note first = take_then_drop [OF uR draw1 b1]
  note second = take_then_drop [OF first(4) draw2 b2]
  have "set ?l2 \<subseteq> set ?l1"
    by (rule filter_is_subset)
  then have l2_sub: "set (map label ?l2) \<subseteq> set (map label ?l1)"
    unfolding set_map by (rule image_mono)
  have i1: "index train_data = map label ?t1" by (simp only: index_def train)
  have i2: "index validation_data = map label ?t2" by (simp only: index_def validation)
  have i3: "index test_data = map label ?l2" by (simp only: index_def test)
  have tv: "set (index train_data) \<inter> set (index validation_data) = {}"
    unfolding i1 i2 using first(2) second(3) by blast
  have tt: "set (index train_data) \<inter> set (index test_data) = {}"
    unfolding i1 i3 using first(2) l2_sub by blast
  have vt: "set (index validation_data) \<inter> set (index test_data) = {}"
    unfolding i2 i3 using second(2) by blast
  have all: "mset ?t1 + mset ?t2 + mset ?l2 = mset ?R"
    using first(1) second(1) by (simp only: add.assoc)
  have sub: "set ?t1 \<subseteq> set ?R" "set ?t2 \<subseteq> set ?R" "set ?l2 \<subseteq> set ?R"
    using arg_cong [OF all, of set_mset] by auto
  show ?thesis
    unfolding train validation test using tv tt vt sub all by simp
qed

text \<open>
  The theorem at a frame of ten rows: seven rows go to the train frame, two of the other
  three to the validation frame, the last to the test frame.
\<close>

theorem split_partition_witness:
  "distinct (index (ten_rows [0..<10])) \<and>
   distinct [9, 2, 4, 0, 7, 5, 1 :: nat] \<and>
   distinct [2, 0 :: nat] \<and>
   split_train_validation_test (ten_rows [0..<10]) [9, 2, 4, 0, 7, 5, 1] [2, 0]
     = Inr (ten_rows [9, 2, 4, 0, 7, 5, 1], ten_rows [8, 3], ten_rows [6]) \<and>
   set (index (ten_rows [9, 2, 4, 0, 7, 5, 1])) \<inter> set (index (ten_rows [8, 3])) = {} \<and>
   set (index (ten_rows [9, 2, 4, 0, 7, 5, 1])) \<inter> set (index (ten_rows [6])) = {} \<and>
   set (index (ten_rows [8, 3])) \<inter> set (index (ten_rows [6])) = {} \<and>
   set (rows (ten_rows [9, 2, 4, 0, 7, 5, 1])) \<subseteq> set (rows (ten_rows [0..<10])) \<and>
   set (rows (ten_rows [8, 3])) \<subseteq> set (rows (ten_rows [0..<10])) \<and>
   set (rows (ten_rows [6])) \<subseteq> set (rows (ten_rows [0..<10])) \<and>
   mset (rows (ten_rows [9, 2, 4, 0, 7, 5, 1])) + mset (rows (ten_rows [8, 3]))
       + mset (rows (ten_rows [6]))
     = mset (rows (ten_rows [0..<10]))"
proof -
  have uniq: "distinct (index (ten_rows [0..<10]))"
    by code_simp
  have draw1: "distinct [9, 2, 4, 0, 7, 5, 1 :: nat]"
    by simp
  have draw2: "distinct [2, 0 :: nat]"
    by simp
  have split: "split_train_validation_test (ten_rows [0..<10]) [9, 2, 4, 0, 7, 5, 1] [2, 0]
     = Inr (ten_rows [9, 2, 4, 0, 7, 5, 1], ten_rows [8, 3], ten_rows [6])"
    by code_simp
  from split_partition [OF uniq draw1 draw2 split] uniq draw1 draw2 split
  show ?thesis by (intro conjI) simp_all
qed

lemma taken_labels_subset:
  assumes "\<forall>i\<in>set locs. i < length xs"
  shows "set (map label (map (\<lambda>i. xs ! i) locs)) \<subseteq> set (map label xs)"
proof -
  have "(\<lambda>i. xs ! i) ` set locs \<subseteq> set xs"
    using assms by auto
  then have "label ` ((\<lambda>i. xs ! i) ` set locs) \<subseteq> label ` set xs"
    by (rule image_mono)
  then show ?thesis by (simp only: set_map)
qed

text \<open>
  The split does produce its three frames, whatever the generator draws and whatever the
  sizes of the two samples are rounded to.
\<close>

lemma split_succeeds:
  assumes draw1: "random_choice (len model_df) n1 locs1"
    and draw2: "random_choice (len (rest_after model_df locs1)) n2 locs2"
  shows "\<exists>train_data validation_data test_data.
           split_train_validation_test model_df locs1 locs2
             = Inr (train_data, validation_data, test_data)"
proof -
  let ?R = "rows model_df"
  let ?t1 = "map (\<lambda>i. ?R ! i) locs1"
  let ?l1 = "filter (\<lambda>r. label r \<notin> set (map label ?t1)) ?R"
  let ?t2 = "map (\<lambda>i. ?l1 ! i) locs2"
  let ?l2 = "filter (\<lambda>r. label r \<notin> set (map label ?t2)) ?l1"
  let ?train = "model_df\<lparr>rows := ?t1\<rparr>"
  let ?rest = "model_df\<lparr>rows := ?l1\<rparr>"
  let ?validation = "?rest\<lparr>rows := ?t2\<rparr>"
  let ?test = "?rest\<lparr>rows := ?l2\<rparr>"
  have b1: "\<forall>i\<in>set locs1. i < length ?R"
    using draw1 by (simp add: random_choice_def list_all_iff len_def)
  have rest: "rest_after model_df locs1 = ?rest"
    by (simp add: rest_after_def comp_def)
  have b2: "\<forall>i\<in>set locs2. i < length ?l1"
    using draw2 unfolding rest by (simp add: random_choice_def list_all_iff len_def)
  have in1: "set (map label ?t1) \<subseteq> set (map label ?R)"
    by (rule taken_labels_subset [OF b1])
  have in2: "set (map label ?t2) \<subseteq> set (map label ?l1)"
    by (rule taken_labels_subset [OF b2])
  have s1: "df_sample (7 / 10) model_df locs1 = Inr ?train"
    by (rule df_sample_frac [OF _ _ draw1]) simp_all
  have dr1: "df_drop (index ?train) model_df = Inr ?rest"
    using in1 by (simp add: df_drop_taken index_def)
  have s2: "df_sample (66 / 100) ?rest locs2 = Inr ?validation"
    using df_sample_frac [OF _ _ draw2 [unfolded rest], of "66 / 100"] by simp
  have dr2: "df_drop (index ?validation) ?rest = Inr ?test"
    using in2 by (simp add: df_drop_taken index_def)
  have "split_train_validation_test model_df locs1 locs2 = Inr (?train, ?validation, ?test)"
    by (simp only: split_train_validation_test_def s1 dr1 s2 dr2 sum.case)
  then show ?thesis by blast
qed

text \<open>The split of cell 6 into a train and a validation frame, likewise.\<close>

lemma split_train_validation_partition:
  assumes uniq: "distinct (index sampled_data)"
    and draw: "distinct locs"
    and split: "split_train_validation sampled_data locs = Inr (train_data, validation_data)"
  shows "set (index train_data) \<inter> set (index validation_data) = {} \<and>
         mset (rows train_data) + mset (rows validation_data) = mset (rows sampled_data)"
proof -
  let ?R = "rows sampled_data"
  let ?t = "map (\<lambda>i. ?R ! i) locs"
  let ?l = "filter (\<lambda>r. label r \<notin> set (map label ?t)) ?R"
  from split have s: "df_sample (9 / 10) sampled_data locs = Inr train_data"
      and d: "df_drop (index train_data) sampled_data = Inr validation_data"
    by (auto simp: split_train_validation_def split: sum.splits)
  from df_sample_Inr [OF s] have train: "rows train_data = ?t"
      and b: "\<forall>i\<in>set locs. i < length ?R"
    by simp_all
  from df_drop_Inr [OF d] train have validation: "rows validation_data = ?l"
    by (simp add: index_def)
  have uR: "distinct (map label ?R)" using uniq by (simp add: index_def)
  note part = take_then_drop [OF uR draw b]
  show ?thesis
    unfolding index_def train validation using part(1,2) by simp
qed

section \<open>Properties of the evaluator\<close>

lemma predict_loop_eq:
  "predict_loop ep data (predictions, sent) = (predictions @ map ep data, sent @ data)"
  by (induction data arbitrary: predictions sent) auto

lemma predict_eq: "predict ep data = (map ep data, data)"
  by (simp add: predict_def predict_loop_eq)

lemma get_col_bound:
  assumes "get_col c df = Inr i"
  shows "i < length (columns df) \<and> columns df ! i = c"
proof -
  have "col_positions c df = [i]"
    using assms by (auto simp: get_col_def split: list.splits)
  then have "i \<in> set (col_positions c df)" by simp
  then show ?thesis by (simp add: col_positions_def)
qed

lemma get_col_only:
  assumes "get_col c df = Inr i" and "j < length (columns df)" and "columns df ! j = c"
  shows "j = i"
proof -
  have "col_positions c df = [i]"
    using assms(1) by (auto simp: get_col_def split: list.splits)
  moreover have "j \<in> set (col_positions c df)"
    using assms(2,3) by (simp add: col_positions_def)
  ultimately show ?thesis by simp
qed

lemma map2_same: "map2 f (map g xs) (map h xs) = map (\<lambda>x. f (g x) (h x)) xs"
  by (induction xs) auto

lemma series_rectangular:
  assumes "c < length (columns df)"
    and "\<forall>r\<in>set (rows df). length (vals r) = length (columns df)"
  shows "series c df = map (\<lambda>r. vals r ! c) (rows df)"
  using assms by (simp add: series_def cell_def)

text \<open>Dropping a column that occurs once, at position \<open>c\<close>, leaves the cells around it.\<close>

lemma kept_cells:
  assumes "name \<notin> set cs" and "length vs = length cs"
  shows "map snd (filter (\<lambda>(n, v). n \<notin> set [name]) (zip cs vs)) = vs"
  using assms
proof (induction cs arbitrary: vs)
  case Nil
  then show ?case by simp
next
  case (Cons x xs)
  then obtain v vs' where vs: "vs = v # vs'" by (cases vs) auto
  with Cons show ?case by auto
qed

lemma row_features_once:
  assumes col: "get_col name df = Inr c"
    and rect: "length (vals r) = length (columns df)"
  shows "row_features [name] (columns df) r = take c (vals r) @ drop (Suc c) (vals r)"
proof -
  let ?cs = "columns df" and ?vs = "vals r"
  have c: "c < length ?cs" and at: "?cs ! c = name"
    using get_col_bound [OF col] by simp_all
  have before: "name \<notin> set (take c ?cs)"
  proof
    assume "name \<in> set (take c ?cs)"
    then obtain j where j: "j < length (take c ?cs)" and eq: "take c ?cs ! j = name"
      by (auto simp: in_set_conv_nth)
    from j have jc: "j < c" and jl: "j < length ?cs" by simp_all
    from eq jc have "?cs ! j = name" by simp
    from get_col_only [OF col jl this] jc show False by simp
  qed
  have after: "name \<notin> set (drop (Suc c) ?cs)"
  proof
    assume "name \<in> set (drop (Suc c) ?cs)"
    then obtain j where j: "j < length (drop (Suc c) ?cs)" and eq: "drop (Suc c) ?cs ! j = name"
      by (auto simp: in_set_conv_nth)
    from j have jl: "Suc c + j < length ?cs" by simp
    from eq jl have "?cs ! (Suc c + j) = name" by simp
    from get_col_only [OF col jl this] show False by simp
  qed
  have cs: "?cs = take c ?cs @ name # drop (Suc c) ?cs"
    using id_take_nth_drop [OF c] at by simp
  have cv: "c < length ?vs" using c rect by simp
  have vs: "?vs = take c ?vs @ ?vs ! c # drop (Suc c) ?vs"
    by (rule id_take_nth_drop [OF cv])
  have "zip ?cs ?vs
      = zip (take c ?cs) (take c ?vs) @ (name, ?vs ! c) # zip (drop (Suc c) ?cs) (drop (Suc c) ?vs)"
  proof -
    have "zip ?cs ?vs = zip (take c ?cs @ name # drop (Suc c) ?cs)
        (take c ?vs @ ?vs ! c # drop (Suc c) ?vs)"
      using cs vs by simp
    also have "\<dots> = zip (take c ?cs) (take c ?vs)
        @ zip (name # drop (Suc c) ?cs) (?vs ! c # drop (Suc c) ?vs)"
      by (rule zip_append) (simp add: rect)
    finally show ?thesis by simp
  qed
  then have "row_features [name] ?cs r
      = map snd (filter (\<lambda>(n, v). n \<notin> set [name]) (zip (take c ?cs) (take c ?vs)))
        @ map snd (filter (\<lambda>(n, v). n \<notin> set [name]) (zip (drop (Suc c) ?cs) (drop (Suc c) ?vs)))"
    by (simp add: row_features_def)
  also have "\<dots> = take c ?vs @ drop (Suc c) ?vs"
    using kept_cells [OF before, of "take c ?vs"] kept_cells [OF after, of "drop (Suc c) ?vs"] rect
    by simp
  finally show ?thesis .
qed

text \<open>The mean of a series of absolute errors is taken over the rows where both sides are present.\<close>

lemma series_mean_abs_error:
  "series_mean (map (\<lambda>r. abs_error (p r) (y r)) rs)
   = (if filter (\<lambda>r. p r \<noteq> None \<and> y r \<noteq> None) rs = [] then None
      else Some ((\<Sum>r\<leftarrow>filter (\<lambda>r. p r \<noteq> None \<and> y r \<noteq> None) rs. \<bar>the (p r) - the (y r)\<bar>)
                 / of_nat (length (filter (\<lambda>r. p r \<noteq> None \<and> y r \<noteq> None) rs))))"
proof -
  have "map the (filter (\<lambda>v. v \<noteq> None) (map (\<lambda>r. abs_error (p r) (y r)) rs))
      = map (\<lambda>r. \<bar>the (p r) - the (y r)\<bar>) (filter (\<lambda>r. p r \<noteq> None \<and> y r \<noteq> None) rs)"
  proof (induction rs)
    case Nil
    then show ?case by simp
  next
    case (Cons r rs)
    then show ?case by (cases "p r"; cases "y r") simp_all
  qed
  then show ?thesis by (simp add: series_mean_def)
qed

text \<open>
  Claim C4, as amended. For every test frame (rectangular, with one \<^verbatim>\<open>conversion_rate\<close>
  column, at position \<open>c\<close>) and every endpoint, the endpoint is called once per row, in
  row order, with the cells of the row other than its conversion rate, and the cell prints
  as mean average error the arithmetic mean, over the rows whose score and conversion rate
  are both present, of the absolute difference between the score and the conversion rate
  (NaN when there is no such row). When no score and no conversion rate is missing, these
  are all the rows of the frame.
\<close>

theorem evaluate_mean_absolute_error:
  assumes col: "get_col ''conversion_rate'' test_data = Inr c"
    and rect: "list_all (\<lambda>r. length (vals r) = length (columns test_data)) (rows test_data)"
  shows "\<exists>result scored.
           evaluate ll_predictor test_data = Inr result \<and>
           endpoint_calls result
             = map (\<lambda>r. take c (vals r) @ drop (Suc c) (vals r)) (rows test_data) \<and>
           scored = filter (\<lambda>r. ll_predictor (take c (vals r) @ drop (Suc c) (vals r)) \<noteq> None
                               \<and> vals r ! c \<noteq> None) (rows test_data) \<and>
           mean_average_error result
             = (if scored = [] then None
                else Some ((\<Sum>r\<leftarrow>scored.
                              \<bar>the (ll_predictor (take c (vals r) @ drop (Suc c) (vals r)))
                                - the (vals r ! c)\<bar>)
                           / of_nat (length scored))) \<and>
           (list_all (\<lambda>r. ll_predictor (take c (vals r) @ drop (Suc c) (vals r)) \<noteq> None
                          \<and> vals r ! c \<noteq> None) (rows test_data)
              \<longrightarrow> scored = rows test_data)"
proof -
  let ?f = "\<lambda>r. take c (vals r) @ drop (Suc c) (vals r)"
  let ?rf = "row_features [''conversion_rate''] (columns test_data)"
  let ?ok = "\<lambda>r. ll_predictor (?f r) \<noteq> None \<and> vals r ! c \<noteq> None"
  let ?scored = "filter ?ok (rows test_data)"
  have c: "c < length (columns test_data)" and name: "columns test_data ! c = ''conversion_rate''"
    using get_col_bound [OF col] by simp_all
  have rect': "\<forall>r\<in>set (rows test_data). length (vals r) = length (columns test_data)"
    using rect by (simp add: list_all_iff)
  have "\<And>r. r \<in> set (rows test_data) \<Longrightarrow> ?rf r = ?f r"
    using row_features_once [OF col] rect' by blast
  then have feat: "map ?rf (rows test_data) = map ?f (rows test_data)"
    by (intro map_cong) simp_all
  have "''conversion_rate'' \<in> set (columns test_data)"
    using c name by (metis nth_mem)
  then have run: "evaluate ll_predictor test_data
      = Inr \<lparr>mean_average_error
                = series_mean (map2 abs_error
                    (map ll_predictor (map ?rf (rows test_data))) (series c test_data)),
              mean_average_error_nonzero
                = series_mean (map snd (filter (\<lambda>(r, e). positive c r)
                    (zip (rows test_data) (map2 abs_error
                      (map ll_predictor (map ?rf (rows test_data)))
                      (series c test_data))))),
              endpoint_calls = map ?rf (rows test_data)\<rparr>"
    using col
    by (simp add: evaluate_def drop_columns_def as_matrix_def predict_eq comp_def len_def Let_def)
  have error: "map2 abs_error (map ll_predictor (map ?rf (rows test_data))) (series c test_data)
      = map (\<lambda>r. abs_error (ll_predictor (?f r)) (vals r ! c)) (rows test_data)"
    unfolding feat series_rectangular [OF c rect'] by (simp add: map2_same comp_def)
  have mean: "mean_average_error (projr (evaluate ll_predictor test_data))
      = (if ?scored = [] then None
         else Some ((\<Sum>r\<leftarrow>?scored. \<bar>the (ll_predictor (?f r)) - the (vals r ! c)\<bar>)
                    / of_nat (length ?scored)))"
    unfolding run
    by (simp only: sum.sel evaluation.select_convs error
          series_mean_abs_error [of "\<lambda>r. ll_predictor (?f r)" "\<lambda>r. vals r ! c"])
  have calls: "endpoint_calls (projr (evaluate ll_predictor test_data)) = map ?f (rows test_data)"
    unfolding run by (simp only: sum.sel evaluation.select_convs feat)
  have ok: "evaluate ll_predictor test_data = Inr (projr (evaluate ll_predictor test_data))"
    unfolding run by (simp only: sum.sel)
  have all: "list_all ?ok (rows test_data) \<longrightarrow> ?scored = rows test_data"
    by (simp add: list_all_iff)
  show ?thesis using ok calls mean all by blast
qed

text \<open>
  The theorem at the frame of three rows without a missing value, where the mean is over
  the three rows, and at the frame whose second row has no conversion rate.
\<close>

theorem evaluate_mean_absolute_error_witness:
  "get_col ''conversion_rate'' test_three = Inr 1 \<and>
   list_all (\<lambda>r. length (vals r) = length (columns test_three)) (rows test_three) \<and>
   list_all (\<lambda>r. endpoint_sum (take 1 (vals r) @ drop (Suc 1) (vals r)) \<noteq> None \<and> vals r ! 1 \<noteq> None)
     (rows test_three) \<and>
   (\<exists>result. evaluate endpoint_sum test_three = Inr result \<and>
      endpoint_calls result = [[Some 1, Some 1], [Some 0, Some 1], [Some 1, Some 0]] \<and>
      mean_average_error result = Some ((\<bar>1 / 2 - 0\<bar> + \<bar>1 / 4 - 1 / 2\<bar> + \<bar>1 / 4 - 1\<bar>) / 3) \<and>
      mean_average_error result = Some (1 / 2)) \<and>
   get_col ''conversion_rate'' test_missing = Inr 1 \<and>
   list_all (\<lambda>r. length (vals r) = length (columns test_missing)) (rows test_missing) \<and>
   (\<exists>result. evaluate endpoint_sum test_missing = Inr result \<and>
      endpoint_calls result = [[Some 1, Some 1], [Some 0, Some 1], [Some 1, Some 0]] \<and>
      mean_average_error result = Some ((\<bar>1 / 2 - 0\<bar> + \<bar>1 / 4 - 1\<bar>) / 2) \<and>
      mean_average_error result = Some (5 / 8))"
proof -
  let ?f = "\<lambda>r. take 1 (vals r) @ drop (Suc 1) (vals r)"
  let ?ok = "\<lambda>r. endpoint_sum (?f r) \<noteq> None \<and> vals r ! 1 \<noteq> None"
  let ?err = "\<lambda>r. \<bar>the (endpoint_sum (?f r)) - the (vals r ! 1)\<bar>"
  have col: "get_col ''conversion_rate'' test_three = Inr 1"
    by code_simp
  have rect: "list_all (\<lambda>r. length (vals r) = length (columns test_three)) (rows test_three)"
    by code_simp
  have present: "list_all ?ok (rows test_three)"
    by code_simp
  have col': "get_col ''conversion_rate'' test_missing = Inr 1"
    by code_simp
  have rect': "list_all (\<lambda>r. length (vals r) = length (columns test_missing)) (rows test_missing)"
    by code_simp
  have sent: "map ?f (rows test_three) = [[Some 1, Some 1], [Some 0, Some 1], [Some 1, Some 0]]"
    by code_simp
  have scored: "filter ?ok (rows test_three) \<noteq> []"
    by code_simp
  have mean: "(\<Sum>r\<leftarrow>filter ?ok (rows test_three). ?err r) / of_nat (length (filter ?ok (rows test_three)))
      = (\<bar>1 / 2 - 0\<bar> + \<bar>1 / 4 - 1 / 2\<bar> + \<bar>1 / 4 - 1\<bar>) / 3"
    by code_simp
  have sent': "map ?f (rows test_missing) = [[Some 1, Some 1], [Some 0, Some 1], [Some 1, Some 0]]"
    by code_simp
  have scored': "filter ?ok (rows test_missing) \<noteq> []"
    by code_simp
  have mean': "(\<Sum>r\<leftarrow>filter ?ok (rows test_missing). ?err r)
        / of_nat (length (filter ?ok (rows test_missing)))
      = (\<bar>1 / 2 - 0\<bar> + \<bar>1 / 4 - 1\<bar>) / 2"
    by code_simp
  have num: "(\<bar>1 / 2 - 0\<bar> + \<bar>1 / 4 - 1 / 2\<bar> + \<bar>1 / 4 - 1\<bar>) / 3 = (1 / 2 :: rat)"
    and num': "(\<bar>1 / 2 - 0\<bar> + \<bar>1 / 4 - 1\<bar>) / 2 = (5 / 8 :: rat)"
    by simp_all
  from evaluate_mean_absolute_error [OF col rect, of endpoint_sum]
  obtain result where run: "evaluate endpoint_sum test_three = Inr result"
    and calls: "endpoint_calls result = map ?f (rows test_three)"
    and printed: "mean_average_error result
      = (if filter ?ok (rows test_three) = [] then None
         else Some ((\<Sum>r\<leftarrow>filter ?ok (rows test_three). ?err r)
                    / of_nat (length (filter ?ok (rows test_three)))))"
    by blast
  have "mean_average_error result = Some ((\<bar>1 / 2 - 0\<bar> + \<bar>1 / 4 - 1 / 2\<bar> + \<bar>1 / 4 - 1\<bar>) / 3)"
    unfolding printed mean using scored by (simp only: if_False)
  then have three: "\<exists>result. evaluate endpoint_sum test_three = Inr result \<and>
      endpoint_calls result = [[Some 1, Some 1], [Some 0, Some 1], [Some 1, Some 0]] \<and>
      mean_average_error result = Some ((\<bar>1 / 2 - 0\<bar> + \<bar>1 / 4 - 1 / 2\<bar> + \<bar>1 / 4 - 1\<bar>) / 3) \<and>
      mean_average_error result = Some (1 / 2)"
    using run calls [unfolded sent] num by auto
  from evaluate_mean_absolute_error [OF col' rect', of endpoint_sum]
  obtain result' where run': "evaluate endpoint_sum test_missing = Inr result'"
    and calls': "endpoint_calls result' = map ?f (rows test_missing)"
    and printed': "mean_average_error result'
      = (if filter ?ok (rows test_missing) = [] then None
         else Some ((\<Sum>r\<leftarrow>filter ?ok (rows test_missing). ?err r)
                    / of_nat (length (filter ?ok (rows test_missing)))))"
    by blast
  have "mean_average_error result' = Some ((\<bar>1 / 2 - 0\<bar> + \<bar>1 / 4 - 1\<bar>) / 2)"
    unfolding printed' mean' using scored' by (simp only: if_False)
  then have missing: "\<exists>result. evaluate endpoint_sum test_missing = Inr result \<and>
      endpoint_calls result = [[Some 1, Some 1], [Some 0, Some 1], [Some 1, Some 0]] \<and>
      mean_average_error result = Some ((\<bar>1 / 2 - 0\<bar> + \<bar>1 / 4 - 1\<bar>) / 2) \<and>
      mean_average_error result = Some (5 / 8)"
    using run' calls' [unfolded sent'] num' by auto
  from col rect present three col' rect' missing show ?thesis by (intro conjI)
qed

text \<open>
  Claim C4 as stated fails at the frame whose second row has no conversion rate: the
  absolute difference of that row is missing, so that the arithmetic mean over all three
  rows is missing too, and the sum of the two differences that are present is 5/4, a third
  of which is 5/12; the cell prints 5/8, their mean over the two rows that have a
  conversion rate.
\<close>

theorem evaluate_missing_label_counterexample:
  "get_col ''conversion_rate'' test_missing = Inr 1 \<and>
   len test_missing = 3 \<and>
   map (\<lambda>r. abs_error (endpoint_sum (take 1 (vals r) @ drop (Suc 1) (vals r))) (vals r ! 1))
     (rows test_missing) = [Some (1 / 2), None, Some (3 / 4)] \<and>
   arithmetic_mean [Some (1 / 2), None, Some (3 / 4)] = None \<and>
   (case evaluate endpoint_sum test_missing of
      Inl e \<Rightarrow> False
    | Inr result \<Rightarrow> mean_average_error result = Some (5 / 8))"
  by code_simp

section \<open>Properties of the hyperparameter search driver\<close>

lemma wait_loop_never_aux:
  assumes "wait_loop describe i r = Some res"
  shows "HyperParameterTuningJobStatus r \<noteq> ''Completed'' \<longrightarrow>
   (\<forall>j>i. \<exists>r'. describe j = Inr r' \<and> HyperParameterTuningJobStatus r' \<noteq> ''Completed'') \<longrightarrow>
   False"
  using assms
proof (induction rule: wait_loop.raw_induct [rotated 1, consumes 1, case_names 1])
  case (1 wait_loop' describe i r res)
  show ?case
  proof (intro impI)
    assume st: "HyperParameterTuningJobStatus r \<noteq> ''Completed''"
      and later: "\<forall>j>i. \<exists>r'. describe j = Inr r' \<and> HyperParameterTuningJobStatus r' \<noteq> ''Completed''"
    have "\<exists>r'. describe (Suc i) = Inr r' \<and> HyperParameterTuningJobStatus r' \<noteq> ''Completed''"
      using later by simp
    then obtain r' where r': "describe (Suc i) = Inr r'"
        "HyperParameterTuningJobStatus r' \<noteq> ''Completed''"
      by blast
    have next_call: "wait_loop' describe (Suc i) r' = Some res"
      using 1(2) st r' by simp
    have later': "\<forall>j>Suc i. \<exists>r'. describe j = Inr r' \<and> HyperParameterTuningJobStatus r' \<noteq> ''Completed''"
      using later by simp
    show False
      using 1(1) [OF next_call] r'(2) later' by blast
  qed
qed

lemma wait_loop_never:
  assumes "HyperParameterTuningJobStatus r \<noteq> ''Completed''"
    and "\<forall>j>i. \<exists>r'. describe j = Inr r' \<and> HyperParameterTuningJobStatus r' \<noteq> ''Completed''"
  shows "wait_loop describe i r = None"
proof (cases "wait_loop describe i r")
  case None
  then show ?thesis .
next
  case (Some res)
  from wait_loop_never_aux [OF Some] assms show ?thesis by blast
qed

lemma wait_loop_exit:
  assumes "wait_loop describe i r = Some res"
  shows "describe i = Inr r \<longrightarrow>
    (\<forall>k r'. res = Inr (k, r') \<longrightarrow>
       i \<le> k \<and> describe k = Inr r' \<and> HyperParameterTuningJobStatus r' = ''Completed'' \<and>
       (\<forall>j. i \<le> j \<longrightarrow> j < k \<longrightarrow>
          (\<exists>rj. describe j = Inr rj \<and> HyperParameterTuningJobStatus rj \<noteq> ''Completed'')))"
  using assms
proof (induction rule: wait_loop.raw_induct [rotated 1, consumes 1, case_names 1])
  case (1 wait_loop' describe i r res)
  show ?case
  proof (intro impI allI)
    fix k r'
    assume here: "describe i = Inr r" and res: "res = Inr (k, r')"
    show "i \<le> k \<and> describe k = Inr r' \<and> HyperParameterTuningJobStatus r' = ''Completed'' \<and>
       (\<forall>j. i \<le> j \<longrightarrow> j < k \<longrightarrow>
          (\<exists>rj. describe j = Inr rj \<and> HyperParameterTuningJobStatus rj \<noteq> ''Completed''))"
    proof (cases "HyperParameterTuningJobStatus r = ''Completed''")
      case True
      with 1(2) res have "k = i" and "r' = r" by simp_all
      with here True show ?thesis by simp
    next
      case False
      with 1(2) res obtain r2 where r2: "describe (Suc i) = Inr r2"
          and call: "wait_loop' describe (Suc i) r2 = Some res"
        by (cases "describe (Suc i)") simp_all
      from 1(1) [OF call] r2 res have ih: "Suc i \<le> k \<and> describe k = Inr r' \<and>
          HyperParameterTuningJobStatus r' = ''Completed'' \<and>
          (\<forall>j. Suc i \<le> j \<longrightarrow> j < k \<longrightarrow>
             (\<exists>rj. describe j = Inr rj \<and> HyperParameterTuningJobStatus rj \<noteq> ''Completed''))"
        by blast
      have "\<forall>j. i \<le> j \<longrightarrow> j < k \<longrightarrow>
          (\<exists>rj. describe j = Inr rj \<and> HyperParameterTuningJobStatus rj \<noteq> ''Completed'')"
      proof (intro allI impI)
        fix j
        assume "i \<le> j" and "j < k"
        then have j: "i \<le> j \<and> j < k" by simp
        show "\<exists>rj. describe j = Inr rj \<and> HyperParameterTuningJobStatus rj \<noteq> ''Completed''"
        proof (cases "j = i")
          case True
          with here False show ?thesis by simp
        next
          case False
          with j have "Suc i \<le> j" and "j < k" by simp_all
          then show ?thesis using ih by simp
        qed
      qed
      with ih show ?thesis by simp
    qed
  qed
qed

lemma wait_loop_reaches:
  assumes "describe k = Inr r'"
    and "HyperParameterTuningJobStatus r' = ''Completed''"
    and "\<forall>j. i \<le> j \<longrightarrow> j < k \<longrightarrow>
           (\<exists>rj. describe j = Inr rj \<and> HyperParameterTuningJobStatus rj \<noteq> ''Completed'')"
    and "i \<le> k"
    and "describe i = Inr r"
  shows "wait_loop describe i r = Some (Inr (k, r'))"
  using assms
proof (induction "k - i" arbitrary: i r)
  case 0
  then have "i = k" by simp
  with 0 have "r = r'" by simp
  with 0 \<open>i = k\<close> show ?case by (simp add: wait_loop.simps [of describe k r'])
next
  case (Suc d)
  then have lt: "i < k" by simp
  then have "\<exists>rj. describe i = Inr rj \<and> HyperParameterTuningJobStatus rj \<noteq> ''Completed''"
    using Suc.prems(3) [rule_format, of i] by simp
  with Suc.prems have st: "HyperParameterTuningJobStatus r \<noteq> ''Completed''" by simp
  have "\<exists>r2. describe (Suc i) = Inr r2"
  proof (cases "Suc i = k")
    case True
    with Suc.prems show ?thesis by simp
  next
    case False
    with lt have "Suc i < k" by simp
    then show ?thesis using Suc.prems(3) [rule_format, of "Suc i"] by auto
  qed
  then obtain r2 where r2: "describe (Suc i) = Inr r2" by blast
  have d: "d = k - Suc i" using Suc.hyps(2) by simp
  have later: "\<forall>j. Suc i \<le> j \<longrightarrow> j < k \<longrightarrow>
           (\<exists>rj. describe j = Inr rj \<and> HyperParameterTuningJobStatus rj \<noteq> ''Completed'')"
    using Suc.prems(3) by simp
  have "wait_loop describe (Suc i) r2 = Some (Inr (k, r'))"
    using Suc.hyps(1) [OF d Suc.prems(1,2) later _ r2] lt by simp
  then show ?case using st r2 by (simp add: wait_loop.simps [of describe i r])
qed

lemma wait_loop_fault:
  assumes "describe k = Inl e"
    and "\<forall>j. i \<le> j \<longrightarrow> j < k \<longrightarrow>
           (\<exists>rj. describe j = Inr rj \<and> HyperParameterTuningJobStatus rj \<noteq> ''Completed'')"
    and "i < k"
    and "describe i = Inr r"
  shows "wait_loop describe i r = Some (Inl e)"
  using assms
proof (induction "k - i" arbitrary: i r)
  case 0
  then show ?case by simp
next
  case (Suc d)
  have "\<exists>rj. describe i = Inr rj \<and> HyperParameterTuningJobStatus rj \<noteq> ''Completed''"
    using Suc.prems(2) [rule_format, of i] Suc.prems(3) by simp
  with Suc.prems have st: "HyperParameterTuningJobStatus r \<noteq> ''Completed''" by simp
  show ?case
  proof (cases "Suc i = k")
    case True
    with Suc.prems st show ?thesis by (simp add: wait_loop.simps [of describe i r])
  next
    case False
    with Suc.prems have lt: "Suc i < k" by simp
    then have "\<exists>r2. describe (Suc i) = Inr r2"
      using Suc.prems(2) [rule_format, of "Suc i"] by auto
    then obtain r2 where r2: "describe (Suc i) = Inr r2" by blast
    have d: "d = k - Suc i" using Suc.hyps(2) by simp
    have later: "\<forall>j. Suc i \<le> j \<longrightarrow> j < k \<longrightarrow>
           (\<exists>rj. describe j = Inr rj \<and> HyperParameterTuningJobStatus rj \<noteq> ''Completed'')"
      using Suc.prems(2) by simp
    have "wait_loop describe (Suc i) r2 = Some (Inl e)"
      by (rule Suc.hyps(1) [OF d Suc.prems(1) later lt r2])
    then show ?thesis using st r2 by (simp add: wait_loop.simps [of describe i r])
  qed
qed

text \<open>
  Claim C7. When the cell yields tuned hyperparameters, they were read from the answer to
  call \<open>k\<close>, whose status is Completed, and every earlier answer had another status; and
  when call \<open>k\<close> is the first to answer Completed (no earlier call raising), the wait ends
  at that call and the cell reads that answer.
\<close>

theorem block_until_completed:
  "(block_until_tuning_finishes describe = Some (Inr (k, tuned_hyper_params)) \<longrightarrow>
      (\<exists>r. describe k = Inr r \<and> HyperParameterTuningJobStatus r = ''Completed'' \<and>
           BestTrainingJob r = Some tuned_hyper_params) \<and>
      (\<forall>j<k. \<exists>rj. describe j = Inr rj \<and> HyperParameterTuningJobStatus rj \<noteq> ''Completed'')) \<and>
   (describe k = Inr r \<and> HyperParameterTuningJobStatus r = ''Completed'' \<and>
      (\<forall>j<k. \<exists>rj. describe j = Inr rj \<and> HyperParameterTuningJobStatus rj \<noteq> ''Completed'') \<longrightarrow>
      block_until_tuning_finishes describe
        = Some (case BestTrainingJob r of
                  None \<Rightarrow> Inl (KeyError ''BestTrainingJob'')
                | Some tuned \<Rightarrow> Inr (k, tuned)))"
proof (intro conjI impI)
  assume run: "block_until_tuning_finishes describe = Some (Inr (k, tuned_hyper_params))"
  then obtain first where first: "describe 0 = Inr first"
    by (cases "describe 0") (simp_all add: block_until_tuning_finishes_def)
  from run first obtain r where loop: "wait_loop describe 0 first = Some (Inr (k, r))"
      and best: "BestTrainingJob r = Some tuned_hyper_params"
    by (auto simp: block_until_tuning_finishes_def split: option.splits sum.splits)
  from wait_loop_exit [OF loop] first
  have exit: "describe k = Inr r \<and> HyperParameterTuningJobStatus r = ''Completed'' \<and>
       (\<forall>j. 0 \<le> j \<longrightarrow> j < k \<longrightarrow>
          (\<exists>rj. describe j = Inr rj \<and> HyperParameterTuningJobStatus rj \<noteq> ''Completed''))"
    by simp
  with best show "\<exists>r. describe k = Inr r \<and> HyperParameterTuningJobStatus r = ''Completed'' \<and>
           BestTrainingJob r = Some tuned_hyper_params"
    by simp
  from exit show "\<forall>j<k. \<exists>rj. describe j = Inr rj \<and> HyperParameterTuningJobStatus rj \<noteq> ''Completed''"
    by simp
next
  assume h: "describe k = Inr r \<and> HyperParameterTuningJobStatus r = ''Completed'' \<and>
      (\<forall>j<k. \<exists>rj. describe j = Inr rj \<and> HyperParameterTuningJobStatus rj \<noteq> ''Completed'')"
  have "\<exists>first. describe 0 = Inr first"
  proof (cases "k = 0")
    case True
    with h show ?thesis by simp
  next
    case False
    then have "0 < k" by simp
    with h show ?thesis by blast
  qed
  then obtain first where first: "describe 0 = Inr first" by blast
  have before: "\<forall>j. 0 \<le> j \<longrightarrow> j < k \<longrightarrow>
      (\<exists>rj. describe j = Inr rj \<and> HyperParameterTuningJobStatus rj \<noteq> ''Completed'')"
    using h by simp
  have "wait_loop describe 0 first = Some (Inr (k, r))"
    using wait_loop_reaches [OF _ _ before _ first, of r] h by simp
  with first show "block_until_tuning_finishes describe
        = Some (case BestTrainingJob r of
                  None \<Rightarrow> Inl (KeyError ''BestTrainingJob'')
                | Some tuned \<Rightarrow> Inr (k, tuned))"
    by (simp add: block_until_tuning_finishes_def split: option.splits)
qed

text \<open>
  The theorem at the service that answers Completed at the third call: the wait ends at
  that call, and the hyperparameters read are those of its answer.
\<close>

theorem block_until_completed_witness:
  "tuning_completes 0 = Inr \<lparr>HyperParameterTuningJobStatus = ''InProgress'', BestTrainingJob = None\<rparr> \<and>
   tuning_completes 1 = Inr \<lparr>HyperParameterTuningJobStatus = ''InProgress'', BestTrainingJob = None\<rparr> \<and>
   tuning_completes 2
     = Inr \<lparr>HyperParameterTuningJobStatus = ''Completed'',
            BestTrainingJob = Some [(''learning_rate'', ''0.02''), (''use_bias'', ''True'')]\<rparr> \<and>
   block_until_tuning_finishes tuning_completes
     = Some (Inr (2, [(''learning_rate'', ''0.02''), (''use_bias'', ''True'')])) \<and>
   (\<exists>r. tuning_completes 2 = Inr r \<and> HyperParameterTuningJobStatus r = ''Completed'' \<and>
      BestTrainingJob r = Some [(''learning_rate'', ''0.02''), (''use_bias'', ''True'')])"
proof -
  let ?hp = "[(''learning_rate'', ''0.02''), (''use_bias'', ''True'')]"
  let ?done = "\<lparr>HyperParameterTuningJobStatus = ''Completed'', BestTrainingJob = Some ?hp\<rparr>"
  have polls: "tuning_completes 0 = Inr \<lparr>HyperParameterTuningJobStatus = ''InProgress'', BestTrainingJob = None\<rparr>"
      "tuning_completes 1 = Inr \<lparr>HyperParameterTuningJobStatus = ''InProgress'', BestTrainingJob = None\<rparr>"
      "tuning_completes 2 = Inr ?done"
    by (simp_all add: tuning_completes_def)
  have before: "\<forall>j<2. \<exists>rj. tuning_completes j = Inr rj \<and> HyperParameterTuningJobStatus rj \<noteq> ''Completed''"
    by (simp add: tuning_completes_def)
  have run: "block_until_tuning_finishes tuning_completes = Some (Inr (2, ?hp))"
    using block_until_completed [of tuning_completes 2 ?hp ?done] polls before by simp
  have read: "\<exists>r. tuning_completes 2 = Inr r \<and> HyperParameterTuningJobStatus r = ''Completed'' \<and>
      BestTrainingJob r = Some ?hp"
    using block_until_completed [of tuning_completes 2 ?hp ?done] run by blast
  show ?thesis using polls run read by simp
qed

text \<open>
  Claim C6 at the service whose tuning job has failed from the third call on: the cell
  neither raises nor returns; it polls for ever.
\<close>

theorem block_until_failed_forever:
  "tuning_failed 0 = Inr \<lparr>HyperParameterTuningJobStatus = ''InProgress'', BestTrainingJob = None\<rparr> \<and>
   tuning_failed 2 = Inr \<lparr>HyperParameterTuningJobStatus = ''Failed'', BestTrainingJob = None\<rparr> \<and>
   block_until_tuning_finishes tuning_failed = None"
proof -
  have later: "\<forall>j>0. \<exists>r'. tuning_failed j = Inr r' \<and> HyperParameterTuningJobStatus r' \<noteq> ''Completed''"
    by (simp add: tuning_failed_def)
  have "wait_loop tuning_failed 0
      \<lparr>HyperParameterTuningJobStatus = ''InProgress'', BestTrainingJob = None\<rparr> = None"
    by (rule wait_loop_never [OF _ later]) simp
  then show ?thesis by (simp add: block_until_tuning_finishes_def tuning_failed_def)
qed

section \<open>Properties of the model inspector\<close>

lemma startswith_split_first: "startswith col (split_first sep col)"
  unfolding startswith_def split_first_def by (rule takeWhile_eq_take [symmetric])

lemma group_weights_member:
  "w \<in> set (group_weights feature mw) \<longleftrightarrow> (\<exists>f. (f, w) \<in> set mw \<and> startswith f feature)"
  by (force simp: group_weights_def)

text \<open>
  Claim C5 at the columns \<^verbatim>\<open>platform_os-ios\<close> and \<^verbatim>\<open>platform_os_version-12\<close> with the
  weights 1 and -3: the feature \<^verbatim>\<open>platform_os_version-12\<close> belongs to the group
  \<^verbatim>\<open>platform_os_version\<close>, and its weight is also among the weights of the group
  \<^verbatim>\<open>platform_os\<close>, whose mean, median and maximum it changes from 1 to 2, 2 and 3.
\<close>

theorem inspector_prefix_groups:
  "split_first CHR ''-'' ''platform_os_version-12'' = ''platform_os_version'' \<and>
   model_weights columns_os [1, -3]
     = Inr [(''platform_os-ios'', 1), (''platform_os_version-12'', -3)] \<and>
   group_weights ''platform_os'' [(''platform_os-ios'', 1), (''platform_os_version-12'', -3)]
     = [1, -3] \<and>
   map_sum id (map (\<lambda>s. (features s, mean_weight s, med_weight s, min_weight s, max_weight s)))
       (top_level_weights columns_os [1, -3])
     = Inr [(''platform_os'', Some 2, Some 2, Some 1, Some 3),
            (''platform_os_version'', Some 3, Some 3, Some 3, Some 3)]"
  by (simp add: top_level_weights_def model_weights_def columns_os_def top_level_features_def
      split_first_def feature_row_def group_weights_def startswith_def mean_def median_def
      minimum_def maximum_def)

section \<open>The unbound name in the model inspection (cell 20)\<close>

lemma exec_stmt_unbound:
  assumes "n \<in> set (reads s)" and "n \<notin> set (namespace k)"
  shows "\<exists>x. exec_stmt k s = Inl (NameError x)"
proof -
  have "find (\<lambda>n. n \<notin> set (namespace k)) (reads s) \<noteq> None"
    using assms by (auto simp: find_None_iff)
  then show ?thesis by (auto simp: exec_stmt_def)
qed

text \<open>
  In whatever state the kernel is, as long as \<^verbatim>\<open>jobname\<close> is not bound, cell 20 stops at
  its assignment to \<^verbatim>\<open>key\<close> with a NameError, having bound the three imports and
  performed nothing.
\<close>

lemma cell_20_unbound:
  assumes "''jobname'' \<notin> set (namespace k)"
  shows "\<exists>x. run_stmts k cell_20 =
           (\<lparr>namespace = [''os'', ''mx'', ''boto3''] @ namespace k, performed = performed k\<rparr>,
            Some (NameError x))"
proof -
  let ?k1 = "\<lparr>namespace = [''os'', ''mx'', ''boto3''] @ namespace k, performed = performed k\<rparr>"
  have "''jobname'' \<notin> set (namespace ?k1)"
    using assms by simp
  then have "\<exists>x. exec_stmt ?k1 \<lparr>reads = [''prefix'', ''jobname''], binds = [''key''], effects = []\<rparr>
      = Inl (NameError x)"
    by (intro exec_stmt_unbound [of "''jobname''"]) simp_all
  then show ?thesis
    by (auto simp: cell_20_def exec_stmt_def)
qed

lemma before_20_runs: "snd (run_stmts fresh_kernel cells_before_20) = None"
  by code_simp

lemma before_20_no_download:
  "''download_file'' \<notin> set (performed (fst (run_stmts fresh_kernel cells_before_20)))"
  by code_simp

lemma cell_20_fails:
  "snd (run_stmts (fst (run_stmts fresh_kernel cells_before_20)) cell_20)
   = Some (NameError ''jobname'')"
  by code_simp

lemma cell_20_no_effect:
  "performed (fst (run_stmts (fst (run_stmts fresh_kernel cells_before_20)) cell_20))
   = performed (fst (run_stmts fresh_kernel cells_before_20))"
  by code_simp

text \<open>
  Claim C9. In the state of the kernel after the cells before cell 20 have run in order,
  cell 20 raises NameError for \<^verbatim>\<open>jobname\<close>; it performs no operation before that, and no
  download is in the log.
\<close>

theorem inspection_unbound_jobname:
  assumes "run_stmts fresh_kernel cells_before_20 = (k, None)"
  shows "\<exists>k'. run_stmts k cell_20 = (k', Some (NameError ''jobname'')) \<and>
           performed k' = performed k \<and> ''download_file'' \<notin> set (performed k')"
proof -
  have k: "k = fst (run_stmts fresh_kernel cells_before_20)"
    using assms by simp
  have "run_stmts k cell_20 = (fst (run_stmts k cell_20), Some (NameError ''jobname''))"
    unfolding k using cell_20_fails by (simp add: prod_eq_iff)
  moreover have "performed (fst (run_stmts k cell_20)) = performed k"
    unfolding k by (rule cell_20_no_effect)
  moreover have "''download_file'' \<notin> set (performed k)"
    unfolding k by (rule before_20_no_download)
  ultimately show ?thesis by metis
qed

text \<open>The theorem at the state the cells before cell 20 lead to: they all run.\<close>

theorem inspection_unbound_jobname_witness:
  "run_stmts fresh_kernel cells_before_20
     = (fst (run_stmts fresh_kernel cells_before_20), None) \<and>
   (\<exists>k'. run_stmts (fst (run_stmts fresh_kernel cells_before_20)) cell_20
            = (k', Some (NameError ''jobname'')) \<and>
          performed k' = performed (fst (run_stmts fresh_kernel cells_before_20)) \<and>
          ''download_file'' \<notin> set (performed k'))"
proof -
  have ran: "run_stmts fresh_kernel cells_before_20
      = (fst (run_stmts fresh_kernel cells_before_20), None)"
    using before_20_runs by (simp add: prod_eq_iff)
  from inspection_unbound_jobname [OF ran] ran show ?thesis by (intro conjI)
qed

text \<open>No statement of these cells binds the name, so no run of any of them does.\<close>

lemma jobname_bound_by_no_statement:
  "list_all (\<lambda>s. ''jobname'' \<notin> set (binds s)) (cells_before_20 @ cell_20)"
  by code_simp

lemma unbound_name_stays_unbound:
  assumes "n \<notin> set (namespace k)" and "list_all (\<lambda>s. n \<notin> set (binds s)) ss"
  shows "n \<notin> set (namespace (fst (run_stmts k ss)))"
  using assms
proof (induction ss arbitrary: k)
  case Nil
  then show ?case by simp
next
  case (Cons s ss)
  show ?case
  proof (cases "exec_stmt k s")
    case (Inl e)
    with Cons.prems show ?thesis by simp
  next
    case (Inr k')
    then have "namespace k' = binds s @ namespace k"
      by (auto simp: exec_stmt_def split: option.splits)
    with Cons.prems have "n \<notin> set (namespace k')" by simp
    with Cons.IH [of k'] Cons.prems Inr show ?thesis by simp
  qed
qed

section \<open>Properties of the descriptor file\<close>

lemma length_col_positions:
  "length (col_positions c df) = length (filter (\<lambda>x. x = c) (columns df))"
proof -
  let ?xs = "columns df"
  have "length (col_positions c df) = card (set (col_positions c df))"
    unfolding col_positions_def by (metis distinct_card distinct_filter distinct_upt)
  also have "set (col_positions c df) = {i. i < length ?xs \<and> ?xs ! i = c}"
    by (auto simp: col_positions_def)
  also have "card {i. i < length ?xs \<and> ?xs ! i = c} = length (filter (\<lambda>x. x = c) ?xs)"
    by (simp add: length_filter_conv_card)
  finally show ?thesis .
qed

lemma remove1_once:
  assumes "length (filter (\<lambda>x. x = c) xs) = 1"
  shows "c \<in> set xs \<and> remove1 c xs = filter (\<lambda>x. x \<noteq> c) xs"
  using assms
proof (induction xs)
  case Nil
  then show ?case by simp
next
  case (Cons x xs)
  show ?case
  proof (cases "x = c")
    case True
    with Cons.prems have "filter (\<lambda>x. x = c) xs = []" by simp
    then have "filter (\<lambda>x. x \<noteq> c) xs = xs"
      by (simp add: filter_empty_conv filter_id_conv)
    with True show ?thesis by simp
  next
    case False
    with Cons show ?thesis by simp
  qed
qed

lemma get_col_once:
  assumes "get_col c df = Inr i"
  shows "length (filter (\<lambda>x. x = c) (columns df)) = 1"
proof -
  have "col_positions c df = [i]"
    using assms by (auto simp: get_col_def split: list.splits)
  then show ?thesis using length_col_positions [of c df] by simp
qed

lemma resample_columns:
  assumes "resample df locs = Inr out"
  shows "columns out = columns df \<and> (\<exists>c. get_col ''conversion_rate'' df = Inr c)"
  using assms
  by (auto simp: resample_def Let_def df_sample_def df_take_def concat_ignore_index_def loc_rows_def
      split: sum.splits if_splits)

text \<open>
  Claim C8. In every run in which the resampler produced the sampled data set and cell 43
  trained and deployed, the object written has exactly the keys \<^verbatim>\<open>features\<close> and
  \<^verbatim>\<open>endpoint_name\<close>; the first holds the columns of the sampled data set without
  \<^verbatim>\<open>conversion_rate\<close>, the second the name of the endpoint that the deploy call of
  cell 43 created (it exists in the service afterwards and did not before).
\<close>

theorem descriptor_features_and_endpoint:
  assumes sampled: "resample df locs = Inr sampled_data"
    and deployed: "redeploy_tuned_model timestamp service fit_fault deploy_fault
                     = Inr (job_name, ll_predictor, service')"
  shows "\<exists>prod_model.
           save_model_features sampled_data job_name = Inr (JObject prod_model) \<and>
           map fst prod_model = [''features'', ''endpoint_name''] \<and>
           map_of prod_model ''features''
             = Some (JList (map JString
                 (filter (\<lambda>col. col \<noteq> ''conversion_rate'') (columns sampled_data)))) \<and>
           map_of prod_model ''endpoint_name'' = Some (JString ll_predictor) \<and>
           ll_predictor \<in> set (endpoints service') \<and>
           ll_predictor \<notin> set (endpoints service)"
proof -
  from resample_columns [OF sampled] obtain c
    where cols: "columns sampled_data = columns df"
      and col: "get_col ''conversion_rate'' df = Inr c"
    by blast
  have once: "''conversion_rate'' \<in> set (columns sampled_data) \<and>
      remove1 ''conversion_rate'' (columns sampled_data)
        = filter (\<lambda>col. col \<noteq> ''conversion_rate'') (columns sampled_data)"
    unfolding cols by (rule remove1_once [OF get_col_once [OF col]])
  then have saved: "save_model_features sampled_data job_name
      = Inr (JObject [(''features'', JList (map JString
                 (filter (\<lambda>col. col \<noteq> ''conversion_rate'') (columns sampled_data)))),
               (''endpoint_name'', JString job_name)])"
    by (simp add: save_model_features_def list_remove_def)
  from deployed have name: "job_name = ''canary-cpi-model-sampled-'' @ timestamp"
    by (auto simp: redeploy_tuned_model_def Let_def split: sum.splits)
  from deployed have same: "ll_predictor = job_name"
    and created: "ll_predictor \<in> set (endpoints service')"
    and new: "ll_predictor \<notin> set (endpoints service)"
    by (auto simp: redeploy_tuned_model_def Let_def fit_def deploy_def
        split: sum.splits option.splits if_splits)
  have "map_of [(''features'', JList (map JString
                 (filter (\<lambda>col. col \<noteq> ''conversion_rate'') (columns sampled_data)))),
               (''endpoint_name'', JString job_name)] ''endpoint_name'' = Some (JString ll_predictor)"
    using same by simp
  with saved created new show ?thesis by simp
qed

text \<open>
  The theorem at the sampled frame of 22 rows and a service that holds the job and the
  endpoint of an earlier run.
\<close>

theorem descriptor_features_and_endpoint_witness:
  "resample df_one_in_22 [0..<21] = Inr (projr (resample df_one_in_22 [0..<21])) \<and>
   redeploy_tuned_model ''1543600000'' earlier_service None None
     = Inr (''canary-cpi-model-sampled-1543600000'', ''canary-cpi-model-sampled-1543600000'',
            \<lparr>training_jobs = [''canary-cpi-model-sampled-1543600000'',
                              ''canary-cpi-model-sampled-1543500000''],
             endpoints = [''canary-cpi-model-sampled-1543600000'',
                          ''canary-cpi-model-sampled-1543500000'']\<rparr>) \<and>
   (\<exists>prod_model.
      save_model_features (projr (resample df_one_in_22 [0..<21]))
          ''canary-cpi-model-sampled-1543600000'' = Inr (JObject prod_model) \<and>
      map fst prod_model = [''features'', ''endpoint_name''] \<and>
      map_of prod_model ''features''
        = Some (JList (map JString
            (filter (\<lambda>col. col \<noteq> ''conversion_rate'')
               (columns (projr (resample df_one_in_22 [0..<21])))))) \<and>
      map_of prod_model ''endpoint_name'' = Some (JString ''canary-cpi-model-sampled-1543600000'') \<and>
      ''canary-cpi-model-sampled-1543600000''
        \<in> set (endpoints \<lparr>training_jobs = [''canary-cpi-model-sampled-1543600000'',
                              ''canary-cpi-model-sampled-1543500000''],
             endpoints = [''canary-cpi-model-sampled-1543600000'',
                          ''canary-cpi-model-sampled-1543500000'']\<rparr>) \<and>
      ''canary-cpi-model-sampled-1543600000'' \<notin> set (endpoints earlier_service))"
proof -
  have sampled: "resample df_one_in_22 [0..<21] = Inr (projr (resample df_one_in_22 [0..<21]))"
    by code_simp
  have deployed: "redeploy_tuned_model ''1543600000'' earlier_service None None
     = Inr (''canary-cpi-model-sampled-1543600000'', ''canary-cpi-model-sampled-1543600000'',
            \<lparr>training_jobs = [''canary-cpi-model-sampled-1543600000'',
                              ''canary-cpi-model-sampled-1543500000''],
             endpoints = [''canary-cpi-model-sampled-1543600000'',
                          ''canary-cpi-model-sampled-1543500000'']\<rparr>)"
    by code_simp
  from descriptor_features_and_endpoint [OF sampled deployed] sampled deployed
  show ?thesis by (intro conjI)
qed

lemma descriptor_example:
  "save_model_features (projr (resample df_one_in_22 [0..<21])) ''canary-cpi-model-sampled-1543600000''
   = Inr (JObject [(''features'', JList [JString ''rewarded'']),
                   (''endpoint_name'', JString ''canary-cpi-model-sampled-1543600000'')])"
  by code_simp

end
